theory Spec2Isabelle
  imports Complex_Main "HOL-Library.Multiset" "HOL-Library.Log_Nat"
begin

section \<open>JavaScript numbers\<close>

text \<open>
  The academy front end keeps students, payments and grades in a remote relational store
  and derives everything else in the browser, on JavaScript numbers: IEEE 754 binary64
  values, every operation rounded to the nearest one, a tie to the even significand.

  A finite double is modelled by its value, a rational. \<open>rnd x\<close> is the double nearest to
  \<open>x\<close>: with \<open>2 ^ e \<le> \<bar>x\<bar> < 2 ^ (e + 1)\<close> the significand \<open>\<bar>x\<bar> / 2 ^ (e - 52)\<close> is rounded
  to an integer. The exponent is not bounded: the amounts are the store's
  \<open>DECIMAL(10,2)\<close> and \<open>DECIMAL(5,2)\<close> columns and a list has fewer than \<open>2 ^ 32\<close> elements,
  so no sum, difference, product or quotient of the pages leaves the normal range. The
  sign of a zero is not kept; no comparison the pages make depends on it.
\<close>

type_synonym double = rat

text \<open>The binary exponent of a positive rational: \<open>2 ^ expo x \<le> x < 2 ^ (expo x + 1)\<close>.\<close>

definition expo :: "rat \<Rightarrow> int" where
  "expo x = (if 1 \<le> x then bitlen \<lfloor>x\<rfloor> - 1 else - bitlen (\<lceil>1 / x\<rceil> - 1))"

definition round_half_even :: "rat \<Rightarrow> int" where
  "round_half_even y =
     (let n = \<lfloor>y\<rfloor>; r = y - of_int n
      in if r < 1 / 2 then n else if 1 / 2 < r then n + 1 else if even n then n else n + 1)"

definition rnd :: "rat \<Rightarrow> double" where
  "rnd x =
     (if x = 0 then 0
      else let e = expo \<bar>x\<bar> - 52;
               m = round_half_even (\<bar>x\<bar> / 2 powi e)
           in sgn x * of_int m * 2 powi e)"

text \<open>\<open>x + y\<close>, \<open>x - y\<close>, \<open>x * y\<close> and \<open>x / y\<close> on doubles.\<close>

definition fadd :: "double \<Rightarrow> double \<Rightarrow> double" where
  "fadd x y = rnd (x + y)"

definition fsub :: "double \<Rightarrow> double \<Rightarrow> double" where
  "fsub x y = rnd (x - y)"

definition fmul :: "double \<Rightarrow> double \<Rightarrow> double" where
  "fmul x y = rnd (x * y)"

definition fdiv :: "double \<Rightarrow> double \<Rightarrow> double" where
  "fdiv x y = rnd (x / y)"

text \<open>
  A decimal of the store reaches the page as the nearest double; \<open>Number(x)\<close>, which every
  page applies to an amount before using it, is the point where the model converts.
\<close>

definition Number :: "rat \<Rightarrow> double" where
  "Number d = rnd d"

text \<open>
  \<open>Math.round\<close> gives the nearest integer and rounds a tie toward \<open>+\<infinity>\<close>; it is exact on the
  value of its argument.
\<close>

definition Math_round :: "double \<Rightarrow> int" where
  "Math_round x = \<lfloor>x + 1 / 2\<rfloor>"

section \<open>Data model\<close>

text \<open>
  The rows of the store, with the columns the derivations read. Amounts are the decimals
  of the store. Identifiers are the store's UUID strings; the dictionaries keyed by them
  are maps from strings, a UUID never being the name of a property that a JavaScript
  object inherits.
\<close>

record student =
  id_s :: string
  total_tuition :: rat

record payment =
  student_id :: string
  amount :: rat

text \<open>The status labels \<open>"Paid" | "Partial Payment" | "Unpaid"\<close>.\<close>

datatype payment_status = Paid | Partial_Payment | Unpaid

text \<open>
  \<open>v || 0\<close> on a dictionary lookup: a missing key (\<open>undefined\<close>) and the number \<open>0\<close> are
  both falsy and give \<open>0\<close>, any other number is kept.
\<close>

definition or_zero :: "double option \<Rightarrow> double" where
  "or_zero v = (case v of None \<Rightarrow> 0 | Some x \<Rightarrow> if x = 0 then 0 else x)"

section \<open>Student detail page\<close>

text \<open>
  The page asks the store for the payments whose \<open>student_id\<close> equals the student's
  identifier (\<open>.eq("student_id", id)\<close>); the store returns them in an order of its own
  choosing (here by payment date).
\<close>

definition eq_student_id :: "string \<Rightarrow> payment list \<Rightarrow> payment list" where
  "eq_student_id k payments = filter (\<lambda>p. student_id p = k) payments"

text \<open>\<open>payments.reduce((sum, payment) => sum + Number(payment.amount), 0)\<close>\<close>

definition StudentDetail_totalPaid :: "payment list \<Rightarrow> double" where
  "StudentDetail_totalPaid payments = foldl (\<lambda>sum p. fadd sum (Number (amount p))) 0 payments"

definition StudentDetail_balance :: "student \<Rightarrow> payment list \<Rightarrow> double" where
  "StudentDetail_balance s payments =
     fsub (Number (total_tuition s)) (StudentDetail_totalPaid payments)"

definition StudentDetail_paymentStatus :: "student \<Rightarrow> payment list \<Rightarrow> payment_status" where
  "StudentDetail_paymentStatus s payments =
     (if StudentDetail_totalPaid payments \<ge> Number (total_tuition s) then Paid
      else if StudentDetail_totalPaid payments > 0 then Partial_Payment
      else Unpaid)"

section \<open>Payments list page\<close>

text \<open>
  \<open>calculatePaymentStatus\<close> first fills the dictionary \<open>studentPayments\<close> with one
  \<open>forEach\<close> over all payments, then maps every student to a row carrying
  \<open>totalPaid\<close> and \<open>status\<close>.
\<close>

fun studentPayments :: "(string \<rightharpoonup> double) \<Rightarrow> payment list \<Rightarrow> (string \<rightharpoonup> double)" where
  "studentPayments m [] = m"
| "studentPayments m (p # ps) =
     studentPayments
       (m(student_id p \<mapsto> fadd (or_zero (m (student_id p))) (Number (amount p)))) ps"

record student_with_payments = student +
  totalPaid :: double
  status :: payment_status

definition with_status :: "(string \<rightharpoonup> double) \<Rightarrow> student \<Rightarrow> student_with_payments" where
  "with_status m s =
     (let paid = or_zero (m (id_s s));
          totalTuition = Number (total_tuition s);
          st = (if paid \<ge> totalTuition then Paid
                else if paid > 0 then Partial_Payment
                else Unpaid)
      in \<lparr>id_s = id_s s, total_tuition = total_tuition s, totalPaid = paid, status = st\<rparr>)"

definition calculatePaymentStatus :: "student list \<Rightarrow> payment list \<Rightarrow> student_with_payments list" where
  "calculatePaymentStatus students payments =
     map (with_status (studentPayments Map.empty payments)) students"

text \<open>The balance column of a row: \<open>Number(student.total_tuition) - student.totalPaid\<close>.\<close>

definition row_balance :: "student_with_payments \<Rightarrow> double" where
  "row_balance r = fsub (Number (total_tuition r)) (totalPaid r)"

section \<open>Dashboard\<close>

record stats =
  totalStudents :: nat
  totalPayments :: double
  pendingPayments :: nat
  averageGrade :: double

text \<open>
  The first \<open>forEach\<close> of \<open>loadStats\<close> threads the running total and the dictionary
  \<open>paymentsByStudent\<close> through all payment records.
\<close>

fun forEach_payment ::
  "double \<times> (string \<rightharpoonup> double) \<Rightarrow> payment list \<Rightarrow> double \<times> (string \<rightharpoonup> double)" where
  "forEach_payment (paidTotal, m) [] = (paidTotal, m)"
| "forEach_payment (paidTotal, m) (p # ps) =
     forEach_payment
       (fadd paidTotal (Number (amount p)),
        m(student_id p \<mapsto> fadd (or_zero (m (student_id p))) (Number (amount p)))) ps"

text \<open>The second \<open>forEach\<close> counts the students with \<open>paid < total_tuition\<close>.\<close>

definition is_pending :: "(string \<rightharpoonup> double) \<Rightarrow> student \<Rightarrow> bool" where
  "is_pending m s = (let paid = or_zero (m (id_s s)) in paid < Number (total_tuition s))"

fun forEach_student :: "(string \<rightharpoonup> double) \<Rightarrow> nat \<Rightarrow> student list \<Rightarrow> nat" where
  "forEach_student m pendingCount [] = pendingCount"
| "forEach_student m pendingCount (s # ss) =
     forEach_student m (if is_pending m s then pendingCount + 1 else pendingCount) ss"

text \<open>
  \<open>grades.reduce((sum, g) => sum + Number(g.grade), 0) / grades.length\<close>, or \<open>0\<close> without
  grades.
\<close>

definition avgGrade :: "rat list option \<Rightarrow> double" where
  "avgGrade grades =
     (case grades of
        None \<Rightarrow> 0
      | Some gs \<Rightarrow>
          if length gs > 0
          then fdiv (foldl (\<lambda>sum g. fadd sum (Number g)) 0 gs) (of_nat (length gs))
          else 0)"

text \<open>
  \<open>loadStats\<close> from the four query results to the new \<open>stats\<close>. A query that failed
  delivers \<open>null\<close> (\<open>None\<close>): \<open>payments?.forEach\<close> and \<open>students?.forEach\<close> skip it,
  \<open>studentsCount || 0\<close> and the test \<open>grades && grades.length > 0\<close> replace it by \<open>0\<close>.
  The average is stored as \<open>Math.round(avgGrade * 10) / 10\<close>.
\<close>

definition loadStats ::
  "nat option \<Rightarrow> student list option \<Rightarrow> payment list option \<Rightarrow> rat list option \<Rightarrow> stats" where
  "loadStats studentsCount students payments grades =
     (let (paidTotal, m) = (case payments of None \<Rightarrow> (0, Map.empty)
                        | Some ps \<Rightarrow> forEach_payment (0, Map.empty) ps);
          pendingCount = (case students of None \<Rightarrow> 0 | Some ss \<Rightarrow> forEach_student m 0 ss)
      in \<lparr>totalStudents = (case studentsCount of None \<Rightarrow> 0 | Some c \<Rightarrow> c),
          totalPayments = paidTotal,
          pendingPayments = pendingCount,
          averageGrade = fdiv (of_int (Math_round (fmul (avgGrade grades) 10))) 10\<rparr>)"

text \<open>The value of the average-grade card: \<open>stats.averageGrade || "N/A"\<close>.\<close>

datatype card_value = Num double | Str string

definition statCard_averageGrade :: "stats \<Rightarrow> card_value" where
  "statCard_averageGrade st = (if averageGrade st = 0 then Str ''N/A'' else Num (averageGrade st))"

section \<open>Vocabulary of the statements\<close>

text \<open>
  The amounts of a list added from left to right in double arithmetic, starting from
  \<open>0\<close>.
\<close>

definition double_sum :: "rat list \<Rightarrow> double" where
  "double_sum xs = foldl (\<lambda>sum x. fadd sum (Number x)) 0 xs"

text \<open>
  Whole amounts: every amount of the list is an integer, and the magnitudes add up to at
  most \<open>2 ^ 53\<close>. Every partial sum of such a list is a double.
\<close>

definition whole_amounts :: "rat list \<Rightarrow> bool" where
  "whole_amounts xs \<longleftrightarrow>
     list_all (\<lambda>x. of_int \<lfloor>x\<rfloor> = x) xs \<and> sum_list (map abs xs) \<le> 2 ^ 53"

text \<open>
  Follows the specification's words, not the code: round half away from zero, and the
  exact mean rounded that way to one decimal place.
\<close>

definition round_half_away_from_zero :: "rat \<Rightarrow> int" where
  "round_half_away_from_zero x = (if x \<ge> 0 then \<lfloor>x + 1 / 2\<rfloor> else \<lceil>x - 1 / 2\<rceil>)"

definition spec_averageGrade :: "rat list \<Rightarrow> rat" where
  "spec_averageGrade gs =
     of_int (round_half_away_from_zero (sum_list gs / of_nat (length gs) * 10)) / 10"

section \<open>Rounding to a double\<close>

text \<open>
  \<open>rnd\<close> keeps the sign and is exact on the integers up to \<open>2 ^ 53\<close>. For a positive \<open>x\<close> the
  exponent satisfies \<open>2 ^ expo x \<le> x < 2 ^ (expo x + 1)\<close>, the significand of \<open>rnd x\<close> lies
  between \<open>2 ^ 52\<close> and \<open>2 ^ 53\<close>, and \<open>rnd x\<close> is within half a unit in the last place of \<open>x\<close>.
\<close>

lemma round_half_even_of_int: "round_half_even (of_int n) = n"
  by (simp add: round_half_even_def)

lemma round_half_even_ge_floor: "\<lfloor>y\<rfloor> \<le> round_half_even y"
  by (simp add: round_half_even_def Let_def)

lemma expo_lower:
  assumes "0 < x"
  shows "2 powi (expo x) \<le> x"
proof (cases "1 \<le> x")
  case True
  then have pos: "0 < \<lfloor>x\<rfloor>" by simp
  have "(2::int) ^ nat (bitlen \<lfloor>x\<rfloor> - 1) \<le> \<lfloor>x\<rfloor>"
    using bitlen_bounds [OF pos] by simp
  then have "of_int ((2::int) ^ nat (bitlen \<lfloor>x\<rfloor> - 1)) \<le> (of_int \<lfloor>x\<rfloor> :: rat)"
    by (simp only: of_int_le_iff)
  also have "\<dots> \<le> x" by simp
  finally have "(2::rat) ^ nat (bitlen \<lfloor>x\<rfloor> - 1) \<le> x" by simp
  moreover have "0 \<le> bitlen \<lfloor>x\<rfloor> - 1"
    using pos by (simp add: bitlen_alt_def)
  ultimately show ?thesis
    using True by (simp add: expo_def power_int_def)
next
  case False
  then have lt: "x < 1" by simp
  let ?c = "\<lceil>1 / x\<rceil>"
  have "1 < 1 / x" using assms lt by simp
  then have "1 < ?c" by (simp add: less_ceiling_iff)
  then have pos: "0 < ?c - 1" by simp
  have "?c - 1 < 2 ^ nat (bitlen (?c - 1))"
    using bitlen_bounds [OF pos] by simp
  then have "?c \<le> 2 ^ nat (bitlen (?c - 1))" by simp
  then have "(of_int ?c :: rat) \<le> of_int (2 ^ nat (bitlen (?c - 1)))"
    by (simp only: of_int_le_iff)
  moreover have "1 / x \<le> of_int ?c" by (rule le_of_int_ceiling)
  ultimately have "1 / x \<le> of_int (2 ^ nat (bitlen (?c - 1)))" by (rule order_trans [rotated])
  then have "1 / x \<le> 2 ^ nat (bitlen (?c - 1))" by simp
  then have "1 / 2 ^ nat (bitlen (?c - 1)) \<le> x"
    using assms by (simp add: field_simps)
  moreover have "(2::rat) powi (- bitlen (?c - 1)) = 1 / 2 ^ nat (bitlen (?c - 1))"
    using bitlen_nonneg [of "?c - 1"]
    by (simp add: power_int_minus power_int_def inverse_eq_divide power_one_over)
  ultimately show ?thesis
    using False by (simp only: expo_def if_False)
qed

lemma rnd_mantissa_pos:
  assumes "0 < a"
  shows "0 < round_half_even (a / 2 powi (expo a - 52))"
proof -
  have "2 powi (expo a - 52) * 1 \<le> 2 powi (expo a - 52) * (2::rat) powi 52"
    by (intro mult_left_mono) simp_all
  also have "\<dots> = 2 powi (expo a)"
    by (simp add: power_int_diff)
  also have "\<dots> \<le> a" using assms by (rule expo_lower)
  finally have "1 \<le> a / 2 powi (expo a - 52)"
    by (simp add: field_simps)
  then have "1 \<le> \<lfloor>a / 2 powi (expo a - 52)\<rfloor>" by simp
  then show ?thesis
    using round_half_even_ge_floor [of "a / 2 powi (expo a - 52)"] by linarith
qed

lemma rnd_zero: "rnd 0 = 0"
  by (simp add: rnd_def)

lemma rnd_minus: "rnd (- x) = - rnd x"
  by (simp add: rnd_def Let_def)

lemma rnd_pos: "0 < x \<Longrightarrow> 0 < rnd x"
  using rnd_mantissa_pos [of x] by (simp add: rnd_def Let_def)

lemma rnd_neg: "x < 0 \<Longrightarrow> rnd x < 0"
  using rnd_pos [of "- x"] by (simp add: rnd_minus)

lemma rnd_pos_iff: "0 < rnd x \<longleftrightarrow> 0 < x"
  using rnd_pos [of x] rnd_neg [of x] rnd_zero by (cases x "0::rat" rule: linorder_cases) auto

lemma rnd_neg_iff: "rnd x < 0 \<longleftrightarrow> x < 0"
  using rnd_pos [of x] rnd_neg [of x] rnd_zero by (cases x "0::rat" rule: linorder_cases) auto

lemma rnd_le_zero_iff: "rnd x \<le> 0 \<longleftrightarrow> x \<le> 0"
  using rnd_pos_iff [of x] by (simp add: not_less [symmetric])

lemma rnd_eq_zero_iff: "rnd x = 0 \<longleftrightarrow> x = 0"
  using rnd_pos_iff [of x] rnd_neg_iff [of x] by (cases x "0::rat" rule: linorder_cases) auto

lemma rnd_of_int_pos:
  assumes "0 < n" "n \<le> 2 ^ 53"
  shows "rnd (of_int n) = of_int n"
proof -
  have one: "(1::rat) \<le> of_int n" using assms by simp
  have ex: "expo (of_int n) = bitlen n - 1"
    using one by (simp add: expo_def)
  have "bitlen n \<le> 54"
    using assms by (simp add: bitlen_le_iff_power)
  have b1: "1 \<le> bitlen n" using assms(1) by (simp add: bitlen_alt_def)
  show ?thesis
  proof (cases "bitlen n \<le> 53")
    case True
    define k where "k = nat (53 - bitlen n)"
    have abs: "\<bar>of_int n :: rat\<bar> = of_int n" using assms(1) by simp
    have ee: "expo (of_int n) - 52 = - int k"
      using True by (simp add: ex k_def)
    have "(of_int n :: rat) / 2 powi (- int k) = of_int (n * 2 ^ k)"
      by (simp add: power_int_minus field_simps)
    then have m: "round_half_even ((of_int n :: rat) / 2 powi (- int k)) = n * 2 ^ k"
      by (simp only: round_half_even_of_int)
    have "rnd (of_int n) = sgn (of_int n :: rat) * of_int (n * 2 ^ k) * 2 powi (- int k)"
      using assms(1) by (simp only: rnd_def Let_def abs ee m) simp
    also have "\<dots> = of_int n"
      using assms(1) by (simp add: power_int_minus field_simps)
    finally show ?thesis .
  next
    case False
    then have bl: "bitlen n = 54" using \<open>bitlen n \<le> 54\<close> by simp
    have "2 ^ 53 \<le> n"
      using bitlen_bounds [OF assms(1)] bl by simp
    then have n: "n = 2 ^ 53" using assms(2) by simp
    have abs: "\<bar>of_int n :: rat\<bar> = of_int n" using assms(1) by simp
    have ee: "expo (of_int n) - 52 = 1" by (simp add: ex bl)
    have "(of_int n :: rat) / 2 powi 1 = of_int (2 ^ 52)" by (simp add: n)
    then have m: "round_half_even ((of_int n :: rat) / 2 powi 1) = 2 ^ 52"
      by (simp only: round_half_even_of_int)
    have "rnd (of_int n) = sgn (of_int n :: rat) * of_int (2 ^ 52) * 2 powi 1"
      using assms(1) by (simp only: rnd_def Let_def abs ee m) simp
    also have "\<dots> = of_int n" by (simp add: n)
    finally show ?thesis .
  qed
qed

lemma rnd_of_int:
  assumes "\<bar>n\<bar> \<le> 2 ^ 53"
  shows "rnd (of_int n) = of_int n"
proof (cases n "0::int" rule: linorder_cases)
  case less
  then have "rnd (of_int (- n)) = of_int (- n)"
    using assms by (intro rnd_of_int_pos) simp_all
  then show ?thesis by (simp add: rnd_minus)
next
  case equal
  then show ?thesis by (simp add: rnd_zero)
next
  case greater
  then show ?thesis using assms by (intro rnd_of_int_pos) simp_all
qed

lemma expo_upper:
  assumes "0 < x"
  shows "x < 2 powi (expo x + 1)"
proof (cases "1 \<le> x")
  case True
  then have pos: "0 < \<lfloor>x\<rfloor>" by simp
  have nn: "0 \<le> bitlen \<lfloor>x\<rfloor>" by (rule bitlen_nonneg)
  have "\<lfloor>x\<rfloor> < 2 ^ nat (bitlen \<lfloor>x\<rfloor>)"
    using bitlen_bounds [OF pos] by simp
  then have "\<lfloor>x\<rfloor> + 1 \<le> 2 ^ nat (bitlen \<lfloor>x\<rfloor>)" by simp
  then have "(of_int (\<lfloor>x\<rfloor> + 1) :: rat) \<le> of_int (2 ^ nat (bitlen \<lfloor>x\<rfloor>))"
    by (simp only: of_int_le_iff)
  moreover have "x < of_int (\<lfloor>x\<rfloor> + 1)" by linarith
  ultimately have "x < of_int (2 ^ nat (bitlen \<lfloor>x\<rfloor>))" by (rule less_le_trans [rotated])
  then have "x < 2 ^ nat (bitlen \<lfloor>x\<rfloor>)" by simp
  moreover have "(2::rat) powi (bitlen \<lfloor>x\<rfloor> - 1 + 1) = 2 ^ nat (bitlen \<lfloor>x\<rfloor>)"
    using nn by (simp add: power_int_def)
  ultimately show ?thesis
    using True by (simp only: expo_def if_True)
next
  case False
  then have lt: "x < 1" by simp
  let ?c = "\<lceil>1 / x\<rceil>"
  have "1 < 1 / x" using assms lt by simp
  then have "1 < ?c" by (simp add: less_ceiling_iff)
  then have pos: "0 < ?c - 1" by simp
  then have b1: "1 \<le> bitlen (?c - 1)" by (simp add: bitlen_alt_def)
  have "2 ^ nat (bitlen (?c - 1) - 1) \<le> ?c - 1"
    using bitlen_bounds [OF pos] by simp
  then have "(of_int (2 ^ nat (bitlen (?c - 1) - 1)) :: rat) \<le> of_int (?c - 1)"
    by (simp only: of_int_le_iff)
  moreover have "of_int (?c - 1) < 1 / x" using ceiling_correct [of "1 / x"] by simp
  ultimately have "of_int (2 ^ nat (bitlen (?c - 1) - 1)) < 1 / x" by (rule le_less_trans)
  then have "2 ^ nat (bitlen (?c - 1) - 1) < 1 / x" by simp
  then have "x < 1 / 2 ^ nat (bitlen (?c - 1) - 1)"
    using assms by (simp add: field_simps)
  moreover have "(2::rat) powi (- bitlen (?c - 1) + 1) = 1 / 2 ^ nat (bitlen (?c - 1) - 1)"
  proof -
    have "- bitlen (?c - 1) + 1 = - (bitlen (?c - 1) - 1)" by simp
    moreover have "0 \<le> bitlen (?c - 1) - 1" using b1 by simp
    ultimately show ?thesis
      by (simp only: power_int_minus) (simp add: power_int_def inverse_eq_divide)
  qed
  ultimately show ?thesis
    using False by (simp only: expo_def if_False)
qed

lemma round_half_even_nearest: "\<bar>of_int (round_half_even y) - y\<bar> \<le> 1 / 2"
proof -
  have "of_int \<lfloor>y\<rfloor> \<le> y" "y < of_int \<lfloor>y\<rfloor> + 1" by linarith+
  then show ?thesis
    by (auto simp: round_half_even_def Let_def abs_le_iff)
qed

lemma rnd_significand:
  assumes "0 < x"
  shows "2 ^ 52 \<le> round_half_even (x / 2 powi (expo x - 52))
       \<and> round_half_even (x / 2 powi (expo x - 52)) \<le> 2 ^ 53"
proof -
  let ?y = "x / 2 powi (expo x - 52)"
  have p: "(2::rat) powi (expo x) = 2 powi (expo x - 52) * 2 ^ 52"
    by (simp add: power_int_diff)
  have q: "(2::rat) powi (expo x + 1) = 2 powi (expo x - 52) * 2 ^ 53"
    by (simp add: power_int_diff power_int_add)
  have "2 powi (expo x - 52) * 2 ^ 52 \<le> x"
    using expo_lower [OF assms] by (simp only: p)
  then have lo: "2 ^ 52 \<le> ?y"
    by (simp add: field_simps)
  have "x < 2 powi (expo x - 52) * 2 ^ 53"
    using expo_upper [OF assms] by (simp only: q)
  then have hi: "?y < 2 ^ 53"
    by (simp add: field_simps)
  have "(of_int (2 ^ 52) :: rat) \<le> ?y" using lo by simp
  then have "2 ^ 52 \<le> \<lfloor>?y\<rfloor>" by (simp only: le_floor_iff)
  then have l: "2 ^ 52 \<le> round_half_even ?y"
    using round_half_even_ge_floor [of ?y] by linarith
  have "?y < of_int (2 ^ 53)" using hi by simp
  then have "\<lfloor>?y\<rfloor> < 2 ^ 53" by (simp only: floor_less_iff)
  moreover have "round_half_even ?y \<le> \<lfloor>?y\<rfloor> + 1"
    by (simp add: round_half_even_def Let_def)
  ultimately have u: "round_half_even ?y \<le> 2 ^ 53" by linarith
  show ?thesis using l u by simp
qed

lemma rnd_nearest:
  assumes "0 < x"
  shows "\<bar>rnd x - x\<bar> \<le> 2 powi (expo x - 53)"
proof -
  let ?u = "(2::rat) powi (expo x - 52)"
  let ?y = "x / ?u"
  have u: "0 < ?u" by simp
  have r: "rnd x = of_int (round_half_even ?y) * ?u"
    using assms by (simp add: rnd_def Let_def)
  have "rnd x - x = (of_int (round_half_even ?y) - ?y) * ?u"
    using u by (simp add: r field_simps)
  then have "\<bar>rnd x - x\<bar> = \<bar>of_int (round_half_even ?y) - ?y\<bar> * ?u"
    using u by (simp add: abs_mult)
  also have "\<dots> \<le> 1 / 2 * ?u"
    using round_half_even_nearest [of ?y] u by (intro mult_right_mono) simp_all
  also have "\<dots> = 2 powi (expo x - 53)"
    by (simp add: power_int_diff)
  finally show ?thesis .
qed

section \<open>Auxiliary facts\<close>

lemma rnd_numeral: "(numeral w :: int) \<le> 2 ^ 53 \<Longrightarrow> rnd (numeral w) = numeral w"
  using rnd_of_int [of "numeral w"] by simp

lemma fsub_pos_iff: "0 < fsub a b \<longleftrightarrow> b < a"
  by (simp add: fsub_def rnd_pos_iff)

lemma fsub_neg_iff: "fsub a b < 0 \<longleftrightarrow> a < b"
  by (simp add: fsub_def rnd_neg_iff)

lemma fsub_le_zero_iff: "fsub a b \<le> 0 \<longleftrightarrow> a \<le> b"
  by (simp add: fsub_def rnd_le_zero_iff)

lemma Number_zero: "Number 0 = 0"
  by (simp add: Number_def rnd_zero)

lemma Number_pos_iff: "0 < Number d \<longleftrightarrow> 0 < d"
  by (simp add: Number_def rnd_pos_iff)

lemma Number_le_zero_iff: "Number d \<le> 0 \<longleftrightarrow> d \<le> 0"
  by (simp add: Number_def rnd_le_zero_iff)

lemma or_zero_Some: "or_zero (Some x) = x"
  by (simp add: or_zero_def)

lemma or_zero_None: "or_zero None = 0"
  by (simp add: or_zero_def)

lemma double_sum_Nil: "double_sum [] = 0"
  by (simp add: double_sum_def)

lemma StudentDetail_totalPaid_double_sum:
  "StudentDetail_totalPaid ps = double_sum (map amount ps)"
  by (simp add: StudentDetail_totalPaid_def double_sum_def foldl_map)

lemma studentPayments_exact:
  "studentPayments m ps k =
     (if eq_student_id k ps = [] then m k
      else Some (foldl (\<lambda>sum p. fadd sum (Number (amount p))) (or_zero (m k))
                  (eq_student_id k ps)))"
  by (induction ps arbitrary: m) (simp_all add: eq_student_id_def or_zero_Some)

lemma studentPayments_group:
  "studentPayments Map.empty ps k =
     (if eq_student_id k ps = [] then None
      else Some (double_sum (map amount (eq_student_id k ps))))"
  by (simp add: studentPayments_exact or_zero_None double_sum_def foldl_map)

lemma studentPayments_paid:
  "or_zero (studentPayments Map.empty ps k) = double_sum (map amount (eq_student_id k ps))"
  by (simp add: studentPayments_group or_zero_None or_zero_Some double_sum_Nil)

lemma forEach_payment_eq:
  "forEach_payment (t, m) ps =
     (foldl (\<lambda>sum p. fadd sum (Number (amount p))) t ps, studentPayments m ps)"
  by (induction ps arbitrary: t m) simp_all

lemma forEach_student_eq:
  "forEach_student m n ss = n + length (filter (is_pending m) ss)"
  by (induction ss arbitrary: n) simp_all

declare studentPayments.simps [simp del] forEach_payment.simps [simp del]
  forEach_student.simps [simp del]

lemma totalPayments_loadStats:
  "totalPayments (loadStats c ss (Some ps) gs) = double_sum (map amount ps)"
  by (simp add: loadStats_def forEach_payment_eq double_sum_def foldl_map)

lemma pendingPayments_loadStats:
  "pendingPayments (loadStats c (Some ss) (Some ps) gs) =
     length (filter (is_pending (studentPayments Map.empty ps)) ss)"
  by (simp add: loadStats_def forEach_payment_eq forEach_student_eq)

lemma averageGrade_loadStats:
  "averageGrade (loadStats c ss ps gs) = fdiv (of_int (Math_round (fmul (avgGrade gs) 10))) 10"
  by (simp add: loadStats_def split: prod.splits)

lemma avgGrade_nonempty:
  "gs \<noteq> [] \<Longrightarrow> avgGrade (Some gs) = fdiv (double_sum gs) (of_nat (length gs))"
  by (simp add: avgGrade_def double_sum_def)

lemma is_pending_paid:
  "is_pending (studentPayments Map.empty ps) s \<longleftrightarrow>
     double_sum (map amount (eq_student_id (id_s s) ps)) < Number (total_tuition s)"
  by (simp add: is_pending_def studentPayments_paid)

lemma is_pending_fun:
  "is_pending (studentPayments Map.empty ps) =
     (\<lambda>s. double_sum (map amount (eq_student_id (id_s s) ps)) < Number (total_tuition s))"
  by (rule ext) (simp add: is_pending_paid)

lemma status_with_status:
  "status (with_status (studentPayments Map.empty ps) s) =
     (if double_sum (map amount (eq_student_id (id_s s) ps)) \<ge> Number (total_tuition s) then Paid
      else if double_sum (map amount (eq_student_id (id_s s) ps)) > 0 then Partial_Payment
      else Unpaid)"
  by (simp add: with_status_def studentPayments_paid Let_def)

lemma map_status_calculatePaymentStatus:
  "map status (calculatePaymentStatus students payments) =
     map (\<lambda>t. if double_sum (map amount (eq_student_id (id_s t) payments))
                    \<ge> Number (total_tuition t)
                then Paid
              else if double_sum (map amount (eq_student_id (id_s t) payments)) > 0
                then Partial_Payment
              else Unpaid) students"
  by (simp add: calculatePaymentStatus_def status_with_status)

lemma with_status_cong:
  "or_zero (m (id_s s)) = or_zero (m' (id_s s)) \<Longrightarrow> with_status m s = with_status m' s"
  by (simp add: with_status_def)

lemma eq_student_id_matched:
  "k \<in> K \<Longrightarrow> eq_student_id k (filter (\<lambda>p. student_id p \<in> K) ps) = eq_student_id k ps"
  by (induction ps) (auto simp: eq_student_id_def)

lemma floor_int_half: "\<lfloor>(of_int j :: rat) + 1 / 2\<rfloor> = j"
  by (simp add: floor_eq_iff)

lemma ceiling_int_half: "\<lceil>(of_int j :: rat) - 1 / 2\<rceil> = j"
  by (simp add: ceiling_eq_iff)

lemma Math_round_zero: "Math_round 0 = 0"
  by (simp add: Math_round_def floor_eq_iff)

subsection \<open>Whole amounts\<close>

declare of_int_floor_cancel [simp del]

lemma whole_amounts_Cons:
  "whole_amounts (x # xs) \<longleftrightarrow>
     of_int \<lfloor>x\<rfloor> = x \<and> list_all (\<lambda>x. of_int \<lfloor>x\<rfloor> = x) xs \<and> \<bar>x\<bar> + sum_list (map abs xs) \<le> 2 ^ 53"
  by (auto simp: whole_amounts_def)

lemma sum_list_abs_nonneg: "0 \<le> sum_list (map abs (xs :: rat list))"
  by (induction xs) simp_all

lemma rnd_whole:
  assumes "of_int \<lfloor>x\<rfloor> = x" "\<bar>x\<bar> \<le> 2 ^ 53"
  shows "rnd x = x"
proof -
  have "\<bar>of_int \<lfloor>x\<rfloor> :: rat\<bar> \<le> 2 ^ 53" using assms by simp
  then have "\<bar>\<lfloor>x\<rfloor>\<bar> \<le> 2 ^ 53"
    by (metis of_int_abs of_int_le_numeral_power_cancel_iff)
  then have "rnd (of_int \<lfloor>x\<rfloor>) = of_int \<lfloor>x\<rfloor>" by (rule rnd_of_int)
  then show ?thesis using assms(1) by simp
qed

lemma foldl_fadd_whole:
  assumes "of_int \<lfloor>a\<rfloor> = a" "list_all (\<lambda>x. of_int \<lfloor>x\<rfloor> = x) xs"
    and "\<bar>a\<bar> + sum_list (map abs xs) \<le> 2 ^ 53"
  shows "foldl (\<lambda>sum x. fadd sum (Number x)) a xs = a + sum_list xs"
  using assms
proof (induction xs arbitrary: a)
  case Nil
  then show ?case by simp
next
  case (Cons x xs)
  have nn: "0 \<le> sum_list (map abs xs)" by (rule sum_list_abs_nonneg)
  have wx: "of_int \<lfloor>x\<rfloor> = x" and wxs: "list_all (\<lambda>x. of_int \<lfloor>x\<rfloor> = x) xs"
    using Cons.prems(2) by simp_all
  have bound: "\<bar>a\<bar> + \<bar>x\<bar> + sum_list (map abs xs) \<le> 2 ^ 53"
    using Cons.prems(3) by simp
  have "\<bar>x\<bar> \<le> 2 ^ 53" using bound nn by linarith
  then have nx: "Number x = x" using wx by (simp add: Number_def rnd_whole)
  have wsum: "of_int \<lfloor>a + x\<rfloor> = a + x"
    by (metis Cons.prems(1) wx of_int_add floor_of_int)
  have "\<bar>a + x\<bar> \<le> \<bar>a\<bar> + \<bar>x\<bar>" by (rule abs_triangle_ineq)
  then have b2: "\<bar>a + x\<bar> + sum_list (map abs xs) \<le> 2 ^ 53" using bound by linarith
  then have "\<bar>a + x\<bar> \<le> 2 ^ 53" using nn by linarith
  then have step: "fadd a (Number x) = a + x"
    using wsum by (simp add: nx fadd_def rnd_whole)
  have "foldl (\<lambda>sum x. fadd sum (Number x)) (a + x) xs = a + x + sum_list xs"
    using wsum wxs b2 by (rule Cons.IH)
  then show ?case by (simp add: step add.assoc)
qed

lemma double_sum_whole: "whole_amounts xs \<Longrightarrow> double_sum xs = sum_list xs"
  using foldl_fadd_whole [of 0 xs] by (simp add: whole_amounts_def double_sum_def)

lemma Number_whole: "whole_amounts (x # xs) \<Longrightarrow> Number x = x"
proof -
  assume w: "whole_amounts (x # xs)"
  have "0 \<le> sum_list (map abs xs)" by (rule sum_list_abs_nonneg)
  then have "\<bar>x\<bar> \<le> 2 ^ 53" using w by (simp add: whole_amounts_Cons)
  then show ?thesis using w by (simp add: whole_amounts_Cons Number_def rnd_whole)
qed

lemma whole_amounts_tail: "whole_amounts (x # xs) \<Longrightarrow> whole_amounts xs"
proof -
  assume w: "whole_amounts (x # xs)"
  then have "\<bar>x\<bar> + sum_list (map abs xs) \<le> 2 ^ 53" by (simp add: whole_amounts_Cons)
  moreover have "0 \<le> \<bar>x\<bar>" by simp
  ultimately have "sum_list (map abs xs) \<le> 2 ^ 53" by linarith
  then show ?thesis using w by (simp add: whole_amounts_Cons whole_amounts_def)
qed

lemma sum_list_abs_filter_le:
  "sum_list (map (\<lambda>p. \<bar>f p :: rat\<bar>) (filter P ps)) \<le> sum_list (map (\<lambda>p. \<bar>f p\<bar>) ps)"
  by (induction ps) (simp_all add: add_increasing)

lemma whole_amounts_eq_student_id:
  assumes "whole_amounts (map amount ps)"
  shows "whole_amounts (map amount (eq_student_id k ps))"
proof -
  have "sum_list (map (\<lambda>p. \<bar>amount p\<bar>) (eq_student_id k ps)) \<le> sum_list (map (\<lambda>p. \<bar>amount p\<bar>) ps)"
    unfolding eq_student_id_def by (rule sum_list_abs_filter_le)
  then show ?thesis
    using assms by (auto simp: whole_amounts_def list_all_iff comp_def eq_student_id_def)
qed

lemma whole_amounts_mset:
  assumes "mset xs = mset ys" "whole_amounts xs"
  shows "whole_amounts ys"
proof -
  have "set xs = set ys" using assms(1) by (rule mset_eq_setD)
  moreover have "sum_list (map abs xs) = sum_list (map abs ys)"
    using assms(1) by (metis mset_map sum_mset_sum_list)
  ultimately show ?thesis using assms(2) by (simp add: whole_amounts_def list_all_iff)
qed

lemma sum_list_mset: "mset xs = mset ys \<Longrightarrow> sum_list xs = sum_list (ys :: rat list)"
  by (metis sum_mset_sum_list)

lemma abs_le_sum_list_abs: "x \<in> set xs \<Longrightarrow> \<bar>x\<bar> \<le> sum_list (map abs (xs :: rat list))"
proof (induction xs)
  case Nil
  then show ?case by simp
next
  case (Cons y ys)
  have "0 \<le> sum_list (map abs ys)" by (rule sum_list_abs_nonneg)
  moreover have "0 \<le> \<bar>y\<bar>" by simp
  ultimately show ?case using Cons by auto
qed

lemma Number_whole_member:
  assumes "whole_amounts xs" "x \<in> set xs"
  shows "Number x = x"
proof -
  have "\<bar>x\<bar> \<le> sum_list (map abs xs)" using assms(2) by (rule abs_le_sum_list_abs)
  then have "\<bar>x\<bar> \<le> 2 ^ 53" using assms(1) by (simp add: whole_amounts_def)
  moreover have "of_int \<lfloor>x\<rfloor> = x" using assms by (simp add: whole_amounts_def list_all_iff)
  ultimately show ?thesis by (simp add: Number_def rnd_whole)
qed

lemma whole_amounts_append_left: "whole_amounts (xs @ ys) \<Longrightarrow> whole_amounts xs"
  using sum_list_abs_nonneg [of ys] by (simp add: whole_amounts_def)

lemma whole_amounts_append_right: "whole_amounts (xs @ ys) \<Longrightarrow> whole_amounts ys"
  using sum_list_abs_nonneg [of xs] by (simp add: whole_amounts_def)

lemma status_nonpositive:
  assumes "0 \<le> t" "x \<le> 0"
  shows "(if x \<ge> Number t then Paid else if x > 0 then Partial_Payment else Unpaid) =
         (if t = 0 \<and> x = 0 then Paid else Unpaid)"
proof (cases "t = 0")
  case True
  then show ?thesis using assms(2) by (simp add: Number_zero)
next
  case False
  then have "0 < Number t" using assms(1) by (simp add: Number_pos_iff)
  then show ?thesis using assms(2) False by simp
qed

lemma sum_list_whole: "list_all (\<lambda>x. of_int \<lfloor>x\<rfloor> = x) xs \<Longrightarrow> of_int \<lfloor>sum_list xs\<rfloor> = sum_list (xs :: rat list)"
proof (induction xs)
  case Nil
  then show ?case by simp
next
  case (Cons x xs)
  then have "of_int \<lfloor>x\<rfloor> = x" "of_int \<lfloor>sum_list xs\<rfloor> = sum_list xs" by simp_all
  then show ?case by (metis sum_list.Cons of_int_add floor_of_int)
qed

lemma fsub_whole:
  assumes "whole_amounts (t # xs)"
  shows "fsub t (sum_list xs) = t - sum_list xs"
proof -
  have wt: "of_int \<lfloor>t\<rfloor> = t" and wxs: "list_all (\<lambda>x. of_int \<lfloor>x\<rfloor> = x) xs"
    and bound: "\<bar>t\<bar> + sum_list (map abs xs) \<le> 2 ^ 53"
    using assms by (simp_all add: whole_amounts_Cons)
  have "of_int \<lfloor>t - sum_list xs\<rfloor> = t - sum_list xs"
    by (metis wt sum_list_whole [OF wxs] of_int_diff floor_of_int)
  moreover have "\<bar>t - sum_list xs\<bar> \<le> \<bar>t\<bar> + \<bar>sum_list xs\<bar>" by (rule abs_triangle_ineq4)
  then have "\<bar>t - sum_list xs\<bar> \<le> 2 ^ 53"
    using bound sum_list_abs [of xs] by linarith
  ultimately show ?thesis by (simp add: fsub_def rnd_whole)
qed

lemma Number_numeral: "(numeral w :: int) \<le> 2 ^ 53 \<Longrightarrow> Number (numeral w) = numeral w"
  by (simp add: Number_def rnd_numeral)

lemma double_sum_whole_mset:
  assumes "mset xs = mset ys" "whole_amounts xs"
  shows "double_sum xs = double_sum ys"
  using double_sum_whole [OF assms(2)] double_sum_whole [OF whole_amounts_mset [OF assms]]
    sum_list_mset [OF assms(1)]
  by simp

lemma eq_student_id_mset:
  "mset ps = mset qs \<Longrightarrow> mset (eq_student_id k ps) = mset (eq_student_id k qs)"
  by (simp add: eq_student_id_def)


section \<open>Values of concrete sums\<close>

text \<open>
  The doubles of the examples below, each computed from the definitions by evaluation.
\<close>

lemma Number_300_30: "Number (3003 / 10) = 5282933469138125 / 17592186044416"
  by code_simp

lemma double_sum_100_10_200_20:
  "double_sum [1001 / 10, 1001 / 5] = 1320733367284531 / 4398046511104"
  by code_simp

lemma double_sum_tenths:
  "double_sum [1 / 10, 1 / 5, - (3 / 10)] = 1 / 18014398509481984"
  by code_simp

lemma double_sum_010_020: "double_sum [1 / 10, 1 / 5] = 1351079888211149 / 4503599627370496"
  by code_simp

lemma Number_0_30: "Number (3 / 10) = 5404319552844595 / 18014398509481984"
  by code_simp

lemma fsub_0_30:
  "fsub (5404319552844595 / 18014398509481984) (1351079888211149 / 4503599627370496) =
     - (1 / 18014398509481984)"
  by code_simp

lemma Number_151_15: "Number (3023 / 20) = 5318117841226957 / 35184372088832"
  by code_simp

lemma double_sum_store_order:
  "double_sum [50, 1007 / 20, 254 / 5] = 1329529460306739 / 8796093022208"
  by code_simp

lemma double_sum_date_order:
  "double_sum [50, 254 / 5, 1007 / 20] = 5318117841226957 / 35184372088832"
  by code_simp

lemma averageGrade_quarter:
  "averageGrade (loadStats None None None (Some [- (1 / 4)])) =
     - (3602879701896397 / 18014398509481984)"
  by code_simp

lemma averageGrade_two_grades:
  "averageGrade (loadStats None None None (Some [1201 / 20, 1377 / 20])) =
     2265873562520781 / 35184372088832"
  by code_simp

section \<open>The claims\<close>

text \<open>
  Claim C1. For every tuition \<open>\<ge> 0\<close> and every list of payments the status is claimed to
  follow the precedence on the sum of the payments: \<open>Paid\<close> when the sum reaches the
  tuition, else \<open>Partial Payment\<close> when it is positive, else \<open>Unpaid\<close>. The pages compare
  the total they computed in double arithmetic: a tuition of \<open>300.30\<close> paid by \<open>100.10\<close> and
  \<open>200.20\<close> is \<open>Partial Payment\<close> on both pages, the computed total being
  \<open>300.29999999999995\<close>.
\<close>

theorem C1_counterexample:
  "0 \<le> total_tuition \<lparr>id_s = ''a'', total_tuition = 3003 / 10\<rparr>
   \<and> total_tuition \<lparr>id_s = ''a'', total_tuition = 3003 / 10\<rparr> \<le>
       sum_list (map amount
         [\<lparr>student_id = ''a'', amount = 1001 / 10\<rparr>, \<lparr>student_id = ''a'', amount = 1001 / 5\<rparr>])
   \<and> StudentDetail_paymentStatus \<lparr>id_s = ''a'', total_tuition = 3003 / 10\<rparr>
        [\<lparr>student_id = ''a'', amount = 1001 / 10\<rparr>, \<lparr>student_id = ''a'', amount = 1001 / 5\<rparr>]
       = Partial_Payment
   \<and> map status (calculatePaymentStatus [\<lparr>id_s = ''a'', total_tuition = 3003 / 10\<rparr>]
        [\<lparr>student_id = ''a'', amount = 1001 / 10\<rparr>, \<lparr>student_id = ''a'', amount = 1001 / 5\<rparr>])
       = [Partial_Payment]"
  by (simp add: StudentDetail_paymentStatus_def StudentDetail_totalPaid_double_sum
      map_status_calculatePaymentStatus eq_student_id_def
      Number_300_30 double_sum_100_10_200_20)

text \<open>
  Claim C1, amended. For every tuition \<open>\<ge> 0\<close> and every list of payments the status follows
  the precedence on \<open>totalPaid\<close>, the amounts added from left to right in double
  arithmetic, against the tuition as a double: \<open>Paid\<close> when \<open>totalPaid\<close> reaches the tuition,
  else \<open>Partial Payment\<close> when \<open>totalPaid > 0\<close>, else \<open>Unpaid\<close>; on the payments list
  \<open>totalPaid\<close> is taken over the student's own records. For whole amounts \<open>totalPaid\<close> is
  the exact sum and the precedence is the one on the sum. With no payments a tuition of
  \<open>0\<close> is \<open>Paid\<close> and a positive tuition is \<open>Unpaid\<close>.
\<close>

theorem C1_status_precedence:
  assumes "0 \<le> total_tuition s"
  shows "StudentDetail_paymentStatus s ps =
           (if double_sum (map amount ps) \<ge> Number (total_tuition s) then Paid
            else if double_sum (map amount ps) > 0 then Partial_Payment
            else Unpaid)
       \<and> map status (calculatePaymentStatus students payments) =
           map (\<lambda>t. if double_sum (map amount (eq_student_id (id_s t) payments))
                          \<ge> Number (total_tuition t)
                      then Paid
                    else if double_sum (map amount (eq_student_id (id_s t) payments)) > 0
                      then Partial_Payment
                    else Unpaid) students
       \<and> (whole_amounts (total_tuition s # map amount ps) \<longrightarrow>
            StudentDetail_paymentStatus s ps =
              (if sum_list (map amount ps) \<ge> total_tuition s then Paid
               else if sum_list (map amount ps) > 0 then Partial_Payment
               else Unpaid))
       \<and> (whole_amounts (total_tuition s # map amount payments) \<longrightarrow>
            map status (calculatePaymentStatus [s] payments) =
              [if sum_list (map amount (eq_student_id (id_s s) payments)) \<ge> total_tuition s
                 then Paid
               else if sum_list (map amount (eq_student_id (id_s s) payments)) > 0
                 then Partial_Payment
               else Unpaid])
       \<and> StudentDetail_paymentStatus s [] = (if total_tuition s = 0 then Paid else Unpaid)
       \<and> map status (calculatePaymentStatus [s] []) = [if total_tuition s = 0 then Paid else Unpaid]"
proof -
  have detail: "StudentDetail_paymentStatus s ps =
           (if double_sum (map amount ps) \<ge> Number (total_tuition s) then Paid
            else if double_sum (map amount ps) > 0 then Partial_Payment
            else Unpaid)" for ps
    by (simp add: StudentDetail_paymentStatus_def StudentDetail_totalPaid_double_sum)
  have rows: "map status (calculatePaymentStatus students payments) =
           map (\<lambda>t. if double_sum (map amount (eq_student_id (id_s t) payments))
                          \<ge> Number (total_tuition t)
                      then Paid
                    else if double_sum (map amount (eq_student_id (id_s t) payments)) > 0
                      then Partial_Payment
                    else Unpaid) students" for students payments
    by (rule map_status_calculatePaymentStatus)
  have whole_detail: "StudentDetail_paymentStatus s ps =
              (if sum_list (map amount ps) \<ge> total_tuition s then Paid
               else if sum_list (map amount ps) > 0 then Partial_Payment
               else Unpaid)"
    if w: "whole_amounts (total_tuition s # map amount ps)"
    using Number_whole [OF w] double_sum_whole [OF whole_amounts_tail [OF w]]
    by (simp add: detail)
  have whole_rows: "map status (calculatePaymentStatus [s] payments) =
              [if sum_list (map amount (eq_student_id (id_s s) payments)) \<ge> total_tuition s
                 then Paid
               else if sum_list (map amount (eq_student_id (id_s s) payments)) > 0
                 then Partial_Payment
               else Unpaid]"
    if w: "whole_amounts (total_tuition s # map amount payments)"
    using Number_whole [OF w]
      double_sum_whole [OF whole_amounts_eq_student_id [OF whole_amounts_tail [OF w]]]
    by (simp add: rows)
  have pos: "\<not> Number (total_tuition s) \<le> 0" if "total_tuition s \<noteq> 0"
    using assms that by (simp add: Number_le_zero_iff)
  have e1: "StudentDetail_paymentStatus s [] = (if total_tuition s = 0 then Paid else Unpaid)"
    using pos by (simp add: detail double_sum_Nil Number_zero)
  have e2: "map status (calculatePaymentStatus [s] []) = [if total_tuition s = 0 then Paid else Unpaid]"
    using pos by (simp add: rows eq_student_id_def double_sum_Nil Number_zero)
  show ?thesis using detail rows whole_detail whole_rows e1 e2 by blast
qed

theorem C1_status_precedence_witness:
  "0 \<le> total_tuition \<lparr>id_s = ''b'', total_tuition = 500\<rparr>
   \<and> whole_amounts (total_tuition \<lparr>id_s = ''b'', total_tuition = 500\<rparr> #
        map amount [\<lparr>student_id = ''b'', amount = 200\<rparr>, \<lparr>student_id = ''c'', amount = 300\<rparr>])
   \<and> StudentDetail_paymentStatus \<lparr>id_s = ''b'', total_tuition = 500\<rparr>
        [\<lparr>student_id = ''b'', amount = 200\<rparr>, \<lparr>student_id = ''c'', amount = 300\<rparr>] = Paid
   \<and> map status (calculatePaymentStatus [\<lparr>id_s = ''b'', total_tuition = 500\<rparr>]
        [\<lparr>student_id = ''b'', amount = 200\<rparr>, \<lparr>student_id = ''c'', amount = 300\<rparr>])
       = [Partial_Payment]
   \<and> StudentDetail_paymentStatus \<lparr>id_s = ''b'', total_tuition = 500\<rparr> [] = Unpaid"
proof -
  let ?s = "\<lparr>id_s = ''b'', total_tuition = 500\<rparr>"
  let ?ps = "[\<lparr>student_id = ''b'', amount = 200\<rparr>, \<lparr>student_id = ''c'', amount = 300\<rparr>]"
  have t: "0 \<le> total_tuition ?s" by simp
  have w: "whole_amounts (total_tuition ?s # map amount ?ps)"
    by (simp add: whole_amounts_def)
  note inst = C1_status_precedence [OF t, of ?ps "[]" ?ps]
  from inst w have "StudentDetail_paymentStatus ?s ?ps =
      (if sum_list (map amount ?ps) \<ge> total_tuition ?s then Paid
       else if sum_list (map amount ?ps) > 0 then Partial_Payment else Unpaid)"
    by blast
  then have d: "StudentDetail_paymentStatus ?s ?ps = Paid" by simp
  from inst w have "map status (calculatePaymentStatus [?s] ?ps) =
      [if sum_list (map amount (eq_student_id (id_s ?s) ?ps)) \<ge> total_tuition ?s then Paid
       else if sum_list (map amount (eq_student_id (id_s ?s) ?ps)) > 0 then Partial_Payment
       else Unpaid]"
    by blast
  then have r: "map status (calculatePaymentStatus [?s] ?ps) = [Partial_Payment]"
    by (simp add: eq_student_id_def)
  from inst have "StudentDetail_paymentStatus ?s [] = (if total_tuition ?s = 0 then Paid else Unpaid)"
    by blast
  then have e: "StudentDetail_paymentStatus ?s [] = Unpaid" by simp
  show ?thesis using t w d r e by blast
qed

text \<open>
  Claim C2. The average grade of no grades should be a sentinel distinct from zero, and a
  genuine average of \<open>0\<close> should be reported as \<open>0\<close>. The code stores \<open>0\<close> in both cases,
  and the card shows the label \<open>N/A\<close> for both: the single grade \<open>0\<close> is displayed like
  no data at all.
\<close>

theorem C2_zero_average_shown_as_no_data:
  "averageGrade (loadStats None None None (Some [])) = 0
   \<and> averageGrade (loadStats None None None (Some [0])) = 0
   \<and> statCard_averageGrade (loadStats None None None (Some [])) = Str ''N/A''
   \<and> statCard_averageGrade (loadStats None None None (Some [0])) = Str ''N/A''"
  by (simp add: averageGrade_loadStats statCard_averageGrade_def avgGrade_def Math_round_zero
      fadd_def fmul_def fdiv_def Number_def rnd_zero)

text \<open>
  Claim C3. A payment sum \<open>\<le> 0\<close> is claimed to give \<open>Unpaid\<close> for every tuition \<open>\<ge> 0\<close>.
  A tuition of \<open>0\<close> with no payments refutes it: the first test \<open>totalPaid >= totalTuition\<close>
  holds and the status is \<open>Paid\<close>. So do the payments \<open>0.1\<close>, \<open>0.2\<close> and \<open>-0.3\<close> toward a
  tuition of \<open>300\<close>: their sum is \<open>0\<close>, the total computed in doubles is positive and the
  status is \<open>Partial Payment\<close>.
\<close>

theorem C3_counterexample:
  "0 \<le> total_tuition \<lparr>id_s = ''a'', total_tuition = 0\<rparr>
   \<and> sum_list (map amount []) \<le> 0
   \<and> StudentDetail_paymentStatus \<lparr>id_s = ''a'', total_tuition = 0\<rparr> [] = Paid
   \<and> map status (calculatePaymentStatus [\<lparr>id_s = ''a'', total_tuition = 0\<rparr>] []) = [Paid]
   \<and> 0 \<le> total_tuition \<lparr>id_s = ''a'', total_tuition = 300\<rparr>
   \<and> sum_list (map amount
        [\<lparr>student_id = ''a'', amount = 1 / 10\<rparr>, \<lparr>student_id = ''a'', amount = 1 / 5\<rparr>,
         \<lparr>student_id = ''a'', amount = - (3 / 10)\<rparr>]) \<le> 0
   \<and> StudentDetail_paymentStatus \<lparr>id_s = ''a'', total_tuition = 300\<rparr>
        [\<lparr>student_id = ''a'', amount = 1 / 10\<rparr>, \<lparr>student_id = ''a'', amount = 1 / 5\<rparr>,
         \<lparr>student_id = ''a'', amount = - (3 / 10)\<rparr>] = Partial_Payment"
  by (simp add: StudentDetail_paymentStatus_def StudentDetail_totalPaid_double_sum
      map_status_calculatePaymentStatus eq_student_id_def double_sum_Nil Number_zero
      Number_numeral double_sum_tenths)

text \<open>
  Claim C3, amended. For every tuition \<open>\<ge> 0\<close> and every list of payments whose total, as
  the pages compute it in double arithmetic, is \<open>\<le> 0\<close> the status is \<open>Unpaid\<close>, except when
  the tuition and that total are both \<open>0\<close>, where it is \<open>Paid\<close>.
\<close>

theorem C3_nonpositive_sum:
  assumes "0 \<le> total_tuition s"
    and "double_sum (map amount ps) \<le> 0"
    and "double_sum (map amount (eq_student_id (id_s s) payments)) \<le> 0"
  shows "StudentDetail_paymentStatus s ps =
           (if total_tuition s = 0 \<and> double_sum (map amount ps) = 0 then Paid else Unpaid)
       \<and> map status (calculatePaymentStatus [s] payments) =
           [if total_tuition s = 0
               \<and> double_sum (map amount (eq_student_id (id_s s) payments)) = 0
            then Paid else Unpaid]"
proof -
  have d: "StudentDetail_paymentStatus s ps =
      (if double_sum (map amount ps) \<ge> Number (total_tuition s) then Paid
       else if double_sum (map amount ps) > 0 then Partial_Payment else Unpaid)"
    by (simp add: StudentDetail_paymentStatus_def StudentDetail_totalPaid_double_sum)
  have r: "map status (calculatePaymentStatus [s] payments) =
      [if double_sum (map amount (eq_student_id (id_s s) payments)) \<ge> Number (total_tuition s)
         then Paid
       else if double_sum (map amount (eq_student_id (id_s s) payments)) > 0
         then Partial_Payment
       else Unpaid]"
    by (simp add: map_status_calculatePaymentStatus)
  show ?thesis
    unfolding d r status_nonpositive [OF assms(1,2)] status_nonpositive [OF assms(1,3)]
    by simp
qed

theorem C3_nonpositive_sum_witness:
  "0 \<le> total_tuition \<lparr>id_s = ''a'', total_tuition = 300\<rparr>
   \<and> double_sum (map amount
        [\<lparr>student_id = ''a'', amount = 20\<rparr>, \<lparr>student_id = ''a'', amount = - 20\<rparr>]) \<le> 0
   \<and> double_sum (map amount (eq_student_id (id_s \<lparr>id_s = ''a'', total_tuition = 300\<rparr>)
        [\<lparr>student_id = ''a'', amount = - 20\<rparr>, \<lparr>student_id = ''b'', amount = 70\<rparr>])) \<le> 0
   \<and> StudentDetail_paymentStatus \<lparr>id_s = ''a'', total_tuition = 300\<rparr>
        [\<lparr>student_id = ''a'', amount = 20\<rparr>, \<lparr>student_id = ''a'', amount = - 20\<rparr>] = Unpaid
   \<and> map status (calculatePaymentStatus [\<lparr>id_s = ''a'', total_tuition = 300\<rparr>]
        [\<lparr>student_id = ''a'', amount = - 20\<rparr>, \<lparr>student_id = ''b'', amount = 70\<rparr>]) = [Unpaid]"
proof -
  let ?s = "\<lparr>id_s = ''a'', total_tuition = 300\<rparr>"
  let ?ps = "[\<lparr>student_id = ''a'', amount = 20\<rparr>, \<lparr>student_id = ''a'', amount = - 20\<rparr>]"
  let ?qs = "[\<lparr>student_id = ''a'', amount = - 20\<rparr>, \<lparr>student_id = ''b'', amount = 70\<rparr>]"
  have t: "0 \<le> total_tuition ?s" by simp
  have "whole_amounts [20, - 20]" by (simp add: whole_amounts_def)
  then have "double_sum [20, - 20] = 0" by (simp add: double_sum_whole)
  then have h1: "double_sum (map amount ?ps) \<le> 0" by simp
  have "whole_amounts [- 20]" by (simp add: whole_amounts_def)
  then have "double_sum [- 20] = - 20" by (simp add: double_sum_whole)
  then have h2: "double_sum (map amount (eq_student_id (id_s ?s) ?qs)) \<le> 0"
    by (simp add: eq_student_id_def)
  note inst = C3_nonpositive_sum [OF t h1 h2]
  from inst have d: "StudentDetail_paymentStatus ?s ?ps = Unpaid" by simp
  from inst have r: "map status (calculatePaymentStatus [?s] ?qs) = [Unpaid]" by simp
  show ?thesis using t h1 h2 d r by blast
qed

text \<open>
  Claim C4. The dashboard is claimed to count the students whose balance, the tuition minus
  the sum of the student's payments, is positive. It counts on the totals computed in
  double arithmetic: the student with tuition \<open>300.30\<close> who paid \<open>100.10\<close> and \<open>200.20\<close> has
  balance \<open>0\<close> and is counted as pending.
\<close>

theorem C4_counterexample:
  "length (filter
      (\<lambda>s. total_tuition s
             - sum_list (map amount (eq_student_id (id_s s)
                 [\<lparr>student_id = ''a'', amount = 1001 / 10\<rparr>,
                  \<lparr>student_id = ''a'', amount = 1001 / 5\<rparr>])) > 0)
      [\<lparr>id_s = ''a'', total_tuition = 3003 / 10\<rparr>]) = 0
   \<and> pendingPayments (loadStats (Some 1) (Some [\<lparr>id_s = ''a'', total_tuition = 3003 / 10\<rparr>])
        (Some [\<lparr>student_id = ''a'', amount = 1001 / 10\<rparr>, \<lparr>student_id = ''a'', amount = 1001 / 5\<rparr>])
        None) = 1"
  by (simp add: pendingPayments_loadStats is_pending_fun eq_student_id_def
      Number_300_30 double_sum_100_10_200_20)

text \<open>
  Claim C4, amended. The dashboard's pending count first groups the payment amounts by
  student identifier, with string equality on the key, adding each group from left to
  right in double arithmetic; it then counts the students whose balance in double
  arithmetic (tuition minus that total, \<open>0\<close> paid when the student has no payment) is
  strictly positive. For whole amounts this is the count of the students whose tuition
  minus the sum of their payments is positive. Over two students with statuses \<open>Paid\<close> and
  \<open>Partial Payment\<close> the count is \<open>1\<close>.
\<close>

theorem C4_countPending:
  "snd (forEach_payment (0, Map.empty) payments) k =
     (if eq_student_id k payments = [] then None
      else Some (double_sum (map amount (eq_student_id k payments))))
   \<and> pendingPayments (loadStats c (Some students) (Some payments) gs) =
       length (filter
         (\<lambda>s. fsub (Number (total_tuition s))
                 (double_sum (map amount (eq_student_id (id_s s) payments))) > 0)
         students)
   \<and> (whole_amounts (map total_tuition students @ map amount payments) \<longrightarrow>
        pendingPayments (loadStats c (Some students) (Some payments) gs) =
          length (filter
            (\<lambda>s. total_tuition s - sum_list (map amount (eq_student_id (id_s s) payments)) > 0)
            students))
   \<and> (map status (calculatePaymentStatus [s1, s2] payments) = [Paid, Partial_Payment]
        \<longrightarrow> pendingPayments (loadStats c (Some [s1, s2]) (Some payments) gs) = 1)"
proof -
  have grp: "snd (forEach_payment (0, Map.empty) payments) k =
     (if eq_student_id k payments = [] then None
      else Some (double_sum (map amount (eq_student_id k payments))))"
    by (simp add: forEach_payment_eq studentPayments_group)
  have cnt: "pendingPayments (loadStats c (Some ss) (Some payments) gs) =
       length (filter
         (\<lambda>s. fsub (Number (total_tuition s))
                 (double_sum (map amount (eq_student_id (id_s s) payments))) > 0)
         ss)" for ss
    by (simp add: pendingPayments_loadStats is_pending_fun fsub_pos_iff)
  have whole: "pendingPayments (loadStats c (Some students) (Some payments) gs) =
          length (filter
            (\<lambda>s. total_tuition s - sum_list (map amount (eq_student_id (id_s s) payments)) > 0)
            students)"
    if w: "whole_amounts (map total_tuition students @ map amount payments)"
  proof -
    have wp: "whole_amounts (map amount payments)"
      using w by (rule whole_amounts_append_right)
    have wt: "whole_amounts (map total_tuition students)"
      using w by (rule whole_amounts_append_left)
    have "(0 < fsub (Number (total_tuition s))
              (double_sum (map amount (eq_student_id (id_s s) payments)))) =
          (0 < total_tuition s - sum_list (map amount (eq_student_id (id_s s) payments)))"
      if "s \<in> set students" for s
      using that Number_whole_member [OF wt, of "total_tuition s"]
        double_sum_whole [OF whole_amounts_eq_student_id [OF wp, of "id_s s"]]
      by (simp add: fsub_pos_iff)
    then have "filter (\<lambda>s. 0 < fsub (Number (total_tuition s))
              (double_sum (map amount (eq_student_id (id_s s) payments)))) students =
          filter (\<lambda>s. 0 < total_tuition s
              - sum_list (map amount (eq_student_id (id_s s) payments))) students"
      by (intro filter_cong) simp_all
    then show ?thesis by (simp only: cnt)
  qed
  have two: "pendingPayments (loadStats c (Some [s1, s2]) (Some payments) gs) = 1"
    if "map status (calculatePaymentStatus [s1, s2] payments) = [Paid, Partial_Payment]"
    using that
    by (simp add: pendingPayments_loadStats is_pending_fun map_status_calculatePaymentStatus
        split: if_splits)
  show ?thesis using grp cnt whole two by blast
qed

theorem C4_countPending_witness:
  "snd (forEach_payment (0, Map.empty)
      [\<lparr>student_id = ''a'', amount = 60\<rparr>, \<lparr>student_id = ''b'', amount = 200\<rparr>,
       \<lparr>student_id = ''a'', amount = 50\<rparr>]) ''a'' = Some 110
   \<and> whole_amounts
        (map total_tuition [\<lparr>id_s = ''a'', total_tuition = 100\<rparr>, \<lparr>id_s = ''b'', total_tuition = 500\<rparr>]
         @ map amount [\<lparr>student_id = ''a'', amount = 60\<rparr>, \<lparr>student_id = ''b'', amount = 200\<rparr>,
             \<lparr>student_id = ''a'', amount = 50\<rparr>])
   \<and> map status (calculatePaymentStatus
        [\<lparr>id_s = ''a'', total_tuition = 100\<rparr>, \<lparr>id_s = ''b'', total_tuition = 500\<rparr>]
        [\<lparr>student_id = ''a'', amount = 60\<rparr>, \<lparr>student_id = ''b'', amount = 200\<rparr>,
         \<lparr>student_id = ''a'', amount = 50\<rparr>]) = [Paid, Partial_Payment]
   \<and> pendingPayments (loadStats (Some 2)
        (Some [\<lparr>id_s = ''a'', total_tuition = 100\<rparr>, \<lparr>id_s = ''b'', total_tuition = 500\<rparr>])
        (Some [\<lparr>student_id = ''a'', amount = 60\<rparr>, \<lparr>student_id = ''b'', amount = 200\<rparr>,
               \<lparr>student_id = ''a'', amount = 50\<rparr>])
        (Some [80, 90, 70])) = 1"
proof -
  let ?a = "\<lparr>id_s = ''a'', total_tuition = 100\<rparr>" and ?b = "\<lparr>id_s = ''b'', total_tuition = 500\<rparr>"
  let ?ps = "[\<lparr>student_id = ''a'', amount = 60\<rparr>, \<lparr>student_id = ''b'', amount = 200\<rparr>,
              \<lparr>student_id = ''a'', amount = 50\<rparr>]"
  have w: "whole_amounts (map total_tuition [?a, ?b] @ map amount ?ps)"
    by (simp add: whole_amounts_def)
  have st: "map status (calculatePaymentStatus [?a, ?b] ?ps) = [Paid, Partial_Payment]"
    by (simp add: map_status_calculatePaymentStatus eq_student_id_def Number_numeral
        double_sum_whole whole_amounts_def)
  note inst = C4_countPending [of ?ps "''a''" "Some 2" "[?a, ?b]" "Some [80, 90, 70]" ?a ?b]
  from inst have g: "snd (forEach_payment (0, Map.empty) ?ps) ''a'' = Some 110"
    by (simp add: eq_student_id_def double_sum_whole whole_amounts_def)
  from inst st have n: "pendingPayments (loadStats (Some 2) (Some [?a, ?b]) (Some ?ps)
      (Some [80, 90, 70])) = 1"
    by blast
  show ?thesis using g w st n by blast
qed

text \<open>
  Claim C5. The balance is claimed to be the tuition minus the sum of the payments. For a
  tuition of \<open>0.30\<close> paid by \<open>0.10\<close> and \<open>0.20\<close> that difference is \<open>0\<close>; the page computes
  \<open>totalPaid = 0.30000000000000004\<close> and the balance \<open>-2 ^ -54\<close>.
\<close>

theorem C5_counterexample:
  "StudentDetail_totalPaid
      [\<lparr>student_id = ''a'', amount = 1 / 10\<rparr>, \<lparr>student_id = ''a'', amount = 1 / 5\<rparr>]
     \<noteq> sum_list (map amount
         [\<lparr>student_id = ''a'', amount = 1 / 10\<rparr>, \<lparr>student_id = ''a'', amount = 1 / 5\<rparr>])
   \<and> StudentDetail_balance \<lparr>id_s = ''a'', total_tuition = 3 / 10\<rparr>
        [\<lparr>student_id = ''a'', amount = 1 / 10\<rparr>, \<lparr>student_id = ''a'', amount = 1 / 5\<rparr>]
       = - (1 / 18014398509481984)
   \<and> total_tuition \<lparr>id_s = ''a'', total_tuition = 3 / 10\<rparr>
       - sum_list (map amount
           [\<lparr>student_id = ''a'', amount = 1 / 10\<rparr>, \<lparr>student_id = ''a'', amount = 1 / 5\<rparr>]) = 0"
  by (simp add: StudentDetail_balance_def StudentDetail_totalPaid_double_sum
      double_sum_010_020 Number_0_30 fsub_0_30)

text \<open>
  Claim C5, amended. \<open>totalPaid\<close> is the payment amounts added from left to right in double
  arithmetic and the balance is the double tuition minus \<open>totalPaid\<close>, rounded once more and
  never clamped: it is negative exactly when \<open>totalPaid\<close> exceeds the tuition. The same holds
  for the balance column of the payments list. For whole amounts \<open>totalPaid\<close> is the exact
  sum and the balance the exact difference: a tuition of \<open>100\<close> with payments \<open>60\<close> and \<open>50\<close>
  gives \<open>totalPaid = 110\<close>, balance \<open>-10\<close> and status \<open>Paid\<close>. No payments give
  \<open>totalPaid = 0\<close>.
\<close>

theorem C5_balance_unclamped:
  "StudentDetail_totalPaid ps = double_sum (map amount ps)
   \<and> StudentDetail_balance s ps =
       fsub (Number (total_tuition s)) (double_sum (map amount ps))
   \<and> (StudentDetail_balance s ps < 0 \<longleftrightarrow> Number (total_tuition s) < StudentDetail_totalPaid ps)
   \<and> map row_balance (calculatePaymentStatus students payments) =
       map (\<lambda>t. fsub (Number (total_tuition t))
                  (double_sum (map amount (eq_student_id (id_s t) payments)))) students
   \<and> (whole_amounts (total_tuition s # map amount ps) \<longrightarrow>
        StudentDetail_totalPaid ps = sum_list (map amount ps)
        \<and> StudentDetail_balance s ps = total_tuition s - sum_list (map amount ps))
   \<and> StudentDetail_totalPaid [] = 0
   \<and> StudentDetail_totalPaid [\<lparr>student_id = k, amount = 60\<rparr>, \<lparr>student_id = k, amount = 50\<rparr>] = 110
   \<and> StudentDetail_balance \<lparr>id_s = k, total_tuition = 100\<rparr>
        [\<lparr>student_id = k, amount = 60\<rparr>, \<lparr>student_id = k, amount = 50\<rparr>] = - 10
   \<and> StudentDetail_paymentStatus \<lparr>id_s = k, total_tuition = 100\<rparr>
        [\<lparr>student_id = k, amount = 60\<rparr>, \<lparr>student_id = k, amount = 50\<rparr>] = Paid
   \<and> calculatePaymentStatus [\<lparr>id_s = k, total_tuition = 100\<rparr>]
        [\<lparr>student_id = k, amount = 60\<rparr>, \<lparr>student_id = k, amount = 50\<rparr>] =
       [\<lparr>id_s = k, total_tuition = 100, totalPaid = 110, status = Paid\<rparr>]
   \<and> map row_balance (calculatePaymentStatus [\<lparr>id_s = k, total_tuition = 100\<rparr>]
        [\<lparr>student_id = k, amount = 60\<rparr>, \<lparr>student_id = k, amount = 50\<rparr>]) = [- 10]"
proof -
  have tot: "StudentDetail_totalPaid ps = double_sum (map amount ps)" for ps
    by (rule StudentDetail_totalPaid_double_sum)
  have bal: "StudentDetail_balance s ps =
       fsub (Number (total_tuition s)) (double_sum (map amount ps))" for s ps
    by (simp add: StudentDetail_balance_def tot)
  have neg: "StudentDetail_balance s ps < 0 \<longleftrightarrow> Number (total_tuition s) < StudentDetail_totalPaid ps"
    by (simp add: StudentDetail_balance_def fsub_neg_iff)
  have rows: "map row_balance (calculatePaymentStatus students payments) =
       map (\<lambda>t. fsub (Number (total_tuition t))
                  (double_sum (map amount (eq_student_id (id_s t) payments)))) students"
    by (simp add: calculatePaymentStatus_def row_balance_def with_status_def Let_def
        studentPayments_paid)
  have whole: "StudentDetail_totalPaid ps = sum_list (map amount ps)
        \<and> StudentDetail_balance s ps = total_tuition s - sum_list (map amount ps)"
    if w: "whole_amounts (total_tuition s # map amount ps)" for s ps
    using Number_whole [OF w] double_sum_whole [OF whole_amounts_tail [OF w]] fsub_whole [OF w]
    by (simp add: tot bal)
  have w: "whole_amounts (total_tuition \<lparr>id_s = k, total_tuition = 100\<rparr> #
      map amount [\<lparr>student_id = k, amount = 60\<rparr>, \<lparr>student_id = k, amount = 50\<rparr>])"
    by (simp add: whole_amounts_def)
  have ex1: "StudentDetail_totalPaid
      [\<lparr>student_id = k, amount = 60\<rparr>, \<lparr>student_id = k, amount = 50\<rparr>] = 110"
    using whole [OF w] by simp
  have ex2: "StudentDetail_balance \<lparr>id_s = k, total_tuition = 100\<rparr>
        [\<lparr>student_id = k, amount = 60\<rparr>, \<lparr>student_id = k, amount = 50\<rparr>] = - 10"
    using whole [OF w] by simp
  have ex3: "StudentDetail_paymentStatus \<lparr>id_s = k, total_tuition = 100\<rparr>
        [\<lparr>student_id = k, amount = 60\<rparr>, \<lparr>student_id = k, amount = 50\<rparr>] = Paid"
    by (simp add: StudentDetail_paymentStatus_def ex1 Number_numeral)
  have ex4: "calculatePaymentStatus [\<lparr>id_s = k, total_tuition = 100\<rparr>]
        [\<lparr>student_id = k, amount = 60\<rparr>, \<lparr>student_id = k, amount = 50\<rparr>] =
       [\<lparr>id_s = k, total_tuition = 100, totalPaid = 110, status = Paid\<rparr>]"
    using ex1
    by (simp add: calculatePaymentStatus_def with_status_def studentPayments_paid
        eq_student_id_def Number_numeral tot)
  have ex5: "map row_balance (calculatePaymentStatus [\<lparr>id_s = k, total_tuition = 100\<rparr>]
        [\<lparr>student_id = k, amount = 60\<rparr>, \<lparr>student_id = k, amount = 50\<rparr>]) = [- 10]"
    using ex2 by (simp add: ex4 row_balance_def bal ex1 [unfolded tot, simplified])
  have e0: "StudentDetail_totalPaid [] = 0"
    by (simp add: tot double_sum_Nil)
  show ?thesis using tot bal neg rows whole e0 ex1 ex2 ex3 ex4 ex5 by blast
qed

theorem C5_balance_unclamped_witness:
  "whole_amounts (total_tuition \<lparr>id_s = ''a'', total_tuition = 500\<rparr> #
      map amount [\<lparr>student_id = ''a'', amount = 200\<rparr>])
   \<and> StudentDetail_totalPaid [\<lparr>student_id = ''a'', amount = 200\<rparr>] = 200
   \<and> StudentDetail_balance \<lparr>id_s = ''a'', total_tuition = 500\<rparr> [\<lparr>student_id = ''a'', amount = 200\<rparr>] = 300"
proof -
  let ?s = "\<lparr>id_s = ''a'', total_tuition = 500\<rparr>" and ?ps = "[\<lparr>student_id = ''a'', amount = 200\<rparr>]"
  have w: "whole_amounts (total_tuition ?s # map amount ?ps)"
    by (simp add: whole_amounts_def)
  note inst = C5_balance_unclamped [of ?ps ?s "[]" "[]" "''a''"]
  from inst w have "StudentDetail_totalPaid ?ps = sum_list (map amount ?ps)
      \<and> StudentDetail_balance ?s ?ps = total_tuition ?s - sum_list (map amount ?ps)"
    by blast
  then show ?thesis using w by simp
qed




text \<open>
  Claim C7. The average grade is claimed to be the mean rounded to one decimal place, half
  away from zero. \<open>Math.round\<close> rounds a tie toward \<open>+\<infinity>\<close>: the single grade \<open>-0.25\<close> (the
  column has no lower bound) gives \<open>-0.2\<close> where the claim asks \<open>-0.3\<close>. The mean is
  computed in doubles: the grades \<open>60.05\<close> and \<open>68.85\<close> give \<open>64.4\<close> where the claim asks
  \<open>64.5\<close>.
\<close>

theorem C7_counterexample:
  "[- (1 / 4)] \<noteq> ([] :: rat list)
   \<and> averageGrade (loadStats None None None (Some [- (1 / 4)])) =
       - (3602879701896397 / 18014398509481984)
   \<and> spec_averageGrade [- (1 / 4)] = - (3 / 10)
   \<and> averageGrade (loadStats None None None (Some [- (1 / 4)])) \<noteq> spec_averageGrade [- (1 / 4)]
   \<and> [1201 / 20, 1377 / 20] \<noteq> ([] :: rat list)
   \<and> averageGrade (loadStats None None None (Some [1201 / 20, 1377 / 20])) =
       2265873562520781 / 35184372088832
   \<and> spec_averageGrade [1201 / 20, 1377 / 20] = 129 / 2
   \<and> averageGrade (loadStats None None None (Some [1201 / 20, 1377 / 20]))
       \<noteq> spec_averageGrade [1201 / 20, 1377 / 20]"
proof -
  have c: "\<lceil>- (5 / 2) - 1 / 2 :: rat\<rceil> = - 3"
    by (simp add: ceiling_eq_iff)
  have a: "spec_averageGrade [- (1 / 4)] = - (3 / 10)"
    using c by (simp add: spec_averageGrade_def round_half_away_from_zero_def)
  have f: "\<lfloor>1289 / 2 + 1 / 2 :: rat\<rfloor> = 645"
    by (simp add: floor_eq_iff)
  have b: "spec_averageGrade [1201 / 20, 1377 / 20] = 129 / 2"
    using f by (simp add: spec_averageGrade_def round_half_away_from_zero_def)
  show ?thesis by (simp add: a b averageGrade_quarter averageGrade_two_grades)
qed

text \<open>
  Claim C7, amended. The average grade of a non-empty sequence is \<open>Math.round(mean * 10) / 10\<close>
  evaluated in double arithmetic: the grades added from left to right and divided by
  their number, the product with ten rounded to the nearest integer with a tie toward
  \<open>+\<infinity>\<close>, the quotient by ten rounded to a double. For whole grades whose mean is a whole
  number it is that mean, which is also the mean rounded half away from zero to one
  decimal place; the average of \<open>80, 90, 70\<close> is \<open>80.0\<close>.
\<close>

theorem C7_averageGrade_rounding:
  assumes "gs \<noteq> []"
  shows "averageGrade (loadStats c ss ps (Some gs)) =
           fdiv (of_int \<lfloor>fmul (fdiv (double_sum gs) (of_nat (length gs))) 10 + 1 / 2\<rfloor>) 10
       \<and> (whole_amounts gs \<and> sum_list gs = of_int k * of_nat (length gs) \<and> \<bar>k\<bar> * 10 \<le> 2 ^ 53
            \<longrightarrow> averageGrade (loadStats c ss ps (Some gs)) = of_int k
              \<and> spec_averageGrade gs = of_int k)
       \<and> averageGrade (loadStats c ss ps (Some [80, 90, 70])) = 80"
proof -
  have code: "averageGrade (loadStats c ss ps (Some gs)) =
           fdiv (of_int \<lfloor>fmul (fdiv (double_sum gs) (of_nat (length gs))) 10 + 1 / 2\<rfloor>) 10"
    if "gs \<noteq> []" for gs
    using that by (simp add: averageGrade_loadStats avgGrade_nonempty Math_round_def)
  have whole: "averageGrade (loadStats c ss ps (Some gs)) = of_int k
      \<and> spec_averageGrade gs = of_int k"
    if ne: "gs \<noteq> []" and w: "whole_amounts gs"
      and mean: "sum_list gs = of_int k * of_nat (length gs)" and bound: "\<bar>k\<bar> * 10 \<le> 2 ^ 53"
    for gs k
  proof -
    have n: "(of_nat (length gs) :: rat) \<noteq> 0" using ne by simp
    have k1: "\<bar>k\<bar> \<le> 2 ^ 53" using bound by linarith
    have k10: "\<bar>k * 10\<bar> \<le> 2 ^ 53" using bound by (simp add: abs_mult)
    have avg: "fdiv (double_sum gs) (of_nat (length gs)) = of_int k"
      using n rnd_of_int [OF k1] by (simp add: double_sum_whole [OF w] mean fdiv_def)
    have times: "fmul (of_int k) 10 = of_int (k * 10)"
      using rnd_of_int [OF k10] by (simp add: fmul_def)
    have fl: "\<lfloor>(of_int (k * 10) :: rat) + 1 / 2\<rfloor> = k * 10"
      by (rule floor_int_half)
    have tenth: "fdiv (of_int (k * 10)) 10 = of_int k"
      using rnd_of_int [OF k1] by (simp add: fdiv_def)
    have c: "averageGrade (loadStats c ss ps (Some gs)) = of_int k"
      by (simp only: code [OF ne] avg times fl tenth)
    have "sum_list gs / of_nat (length gs) * 10 = of_int (k * 10)"
      using n by (simp add: mean)
    moreover have "\<lceil>(of_int (k * 10) :: rat) - 1 / 2\<rceil> = k * 10"
      by (rule ceiling_int_half)
    ultimately have "round_half_away_from_zero (sum_list gs / of_nat (length gs) * 10) = k * 10"
      using fl by (simp only: round_half_away_from_zero_def if_cancel)
    then have s: "spec_averageGrade gs = of_int k"
      by (simp add: spec_averageGrade_def)
    show ?thesis using c s by simp
  qed
  have "whole_amounts [80, 90, 70]" by (simp add: whole_amounts_def)
  moreover have "sum_list [80, 90, 70] = (of_int 80 :: rat) * of_nat (length [80, 90, 70 :: rat])"
    by simp
  ultimately have "averageGrade (loadStats c ss ps (Some [80, 90, 70])) = of_int 80
      \<and> spec_averageGrade [80, 90, 70] = of_int 80"
    by (intro whole) simp_all
  then have ex: "averageGrade (loadStats c ss ps (Some [80, 90, 70])) = 80" by simp
  show ?thesis using code [OF assms] whole [OF assms] ex by blast
qed

theorem C7_averageGrade_rounding_witness:
  "[70, 80] \<noteq> ([] :: rat list)
   \<and> whole_amounts [70, 80]
   \<and> sum_list [70, 80] = (of_int 75 :: rat) * of_nat (length [70, 80 :: rat])
   \<and> \<bar>75 :: int\<bar> * 10 \<le> 2 ^ 53
   \<and> averageGrade (loadStats None None None (Some [70, 80])) = 75
   \<and> spec_averageGrade [70, 80] = 75"
proof -
  have ne: "[70, 80] \<noteq> ([] :: rat list)" by simp
  have w: "whole_amounts [70, 80]" by (simp add: whole_amounts_def)
  have m: "sum_list [70, 80] = (of_int 75 :: rat) * of_nat (length [70, 80 :: rat])" by simp
  have b: "\<bar>75 :: int\<bar> * 10 \<le> 2 ^ 53" by simp
  note inst = C7_averageGrade_rounding [OF ne, of None None None 75]
  from inst w m b have "averageGrade (loadStats None None None (Some [70, 80])) = of_int 75
      \<and> spec_averageGrade [70, 80] = of_int 75"
    by blast
  then show ?thesis using ne w m b by simp
qed

text \<open>
  Claim C8. The payment summary is claimed not to depend on the order of the payments.
  Double addition is not associative: toward a tuition of \<open>151.15\<close> the payments \<open>50\<close>,
  \<open>50.35\<close>, \<open>50.80\<close> total \<open>151.14999999999998\<close> and give \<open>Partial Payment\<close>, the same
  payments in the order \<open>50\<close>, \<open>50.80\<close>, \<open>50.35\<close> total \<open>151.15\<close> and give \<open>Paid\<close>.
\<close>

theorem C8_counterexample:
  "mset [\<lparr>student_id = ''a'', amount = 50\<rparr>, \<lparr>student_id = ''a'', amount = 1007 / 20\<rparr>,
         \<lparr>student_id = ''a'', amount = 254 / 5\<rparr>] =
     mset [\<lparr>student_id = ''a'', amount = 50\<rparr>, \<lparr>student_id = ''a'', amount = 254 / 5\<rparr>,
           \<lparr>student_id = ''a'', amount = 1007 / 20\<rparr>]
   \<and> StudentDetail_totalPaid
        [\<lparr>student_id = ''a'', amount = 50\<rparr>, \<lparr>student_id = ''a'', amount = 1007 / 20\<rparr>,
         \<lparr>student_id = ''a'', amount = 254 / 5\<rparr>]
       < StudentDetail_totalPaid
        [\<lparr>student_id = ''a'', amount = 50\<rparr>, \<lparr>student_id = ''a'', amount = 254 / 5\<rparr>,
         \<lparr>student_id = ''a'', amount = 1007 / 20\<rparr>]
   \<and> StudentDetail_paymentStatus \<lparr>id_s = ''a'', total_tuition = 3023 / 20\<rparr>
        [\<lparr>student_id = ''a'', amount = 50\<rparr>, \<lparr>student_id = ''a'', amount = 1007 / 20\<rparr>,
         \<lparr>student_id = ''a'', amount = 254 / 5\<rparr>] = Partial_Payment
   \<and> StudentDetail_paymentStatus \<lparr>id_s = ''a'', total_tuition = 3023 / 20\<rparr>
        [\<lparr>student_id = ''a'', amount = 50\<rparr>, \<lparr>student_id = ''a'', amount = 254 / 5\<rparr>,
         \<lparr>student_id = ''a'', amount = 1007 / 20\<rparr>] = Paid
   \<and> map status (calculatePaymentStatus [\<lparr>id_s = ''a'', total_tuition = 3023 / 20\<rparr>]
        [\<lparr>student_id = ''a'', amount = 50\<rparr>, \<lparr>student_id = ''a'', amount = 1007 / 20\<rparr>,
         \<lparr>student_id = ''a'', amount = 254 / 5\<rparr>]) = [Partial_Payment]
   \<and> map status (calculatePaymentStatus [\<lparr>id_s = ''a'', total_tuition = 3023 / 20\<rparr>]
        [\<lparr>student_id = ''a'', amount = 50\<rparr>, \<lparr>student_id = ''a'', amount = 254 / 5\<rparr>,
         \<lparr>student_id = ''a'', amount = 1007 / 20\<rparr>]) = [Paid]"
  by (simp add: StudentDetail_paymentStatus_def StudentDetail_totalPaid_double_sum
      map_status_calculatePaymentStatus eq_student_id_def
      Number_151_15 double_sum_store_order double_sum_date_order)

text \<open>
  Claim C8, amended. For whole amounts the payment summary does not depend on the order of
  the payments: two lists of whole amounts that are permutations of each other give the
  same \<open>totalPaid\<close>, balance and status on the detail page and the same rows on the
  payments list. For arbitrary amounts the rows of the payments list depend only on each
  student's own payments in their order.
\<close>

theorem C8_order_insensitive:
  assumes "mset ps = mset qs" and "whole_amounts (map amount ps)"
  shows "StudentDetail_totalPaid ps = StudentDetail_totalPaid qs
       \<and> StudentDetail_balance s ps = StudentDetail_balance s qs
       \<and> StudentDetail_paymentStatus s ps = StudentDetail_paymentStatus s qs
       \<and> calculatePaymentStatus students ps = calculatePaymentStatus students qs
       \<and> map row_balance (calculatePaymentStatus students ps) =
           map row_balance (calculatePaymentStatus students qs)
       \<and> (map (\<lambda>t. eq_student_id (id_s t) ps') students =
            map (\<lambda>t. eq_student_id (id_s t) qs') students \<longrightarrow>
          calculatePaymentStatus students ps' = calculatePaymentStatus students qs')"
proof -
  have "mset (map amount ps) = mset (map amount qs)" using assms(1) by simp
  then have "double_sum (map amount ps) = double_sum (map amount qs)"
    using assms(2) by (rule double_sum_whole_mset)
  then have total: "StudentDetail_totalPaid ps = StudentDetail_totalPaid qs"
    by (simp add: StudentDetail_totalPaid_double_sum)
  have group: "or_zero (studentPayments Map.empty ps k) = or_zero (studentPayments Map.empty qs k)"
    for k
  proof -
    have "mset (map amount (eq_student_id k ps)) = mset (map amount (eq_student_id k qs))"
      using eq_student_id_mset [OF assms(1), of k] by simp
    then have "double_sum (map amount (eq_student_id k ps)) =
        double_sum (map amount (eq_student_id k qs))"
      using whole_amounts_eq_student_id [OF assms(2)] by (rule double_sum_whole_mset)
    then show ?thesis by (simp add: studentPayments_paid)
  qed
  have row: "with_status (studentPayments Map.empty ps) t =
      with_status (studentPayments Map.empty qs) t" for t
    by (rule with_status_cong) (rule group)
  have rows: "calculatePaymentStatus students ps = calculatePaymentStatus students qs"
    by (simp add: calculatePaymentStatus_def row)
  have own: "calculatePaymentStatus students ps' = calculatePaymentStatus students qs'"
    if "map (\<lambda>t. eq_student_id (id_s t) ps') students =
        map (\<lambda>t. eq_student_id (id_s t) qs') students"
  proof -
    have "with_status (studentPayments Map.empty ps') t =
        with_status (studentPayments Map.empty qs') t" if "t \<in> set students" for t
    proof (rule with_status_cong)
      have "eq_student_id (id_s t) ps' = eq_student_id (id_s t) qs'"
        using \<open>map _ students = map _ students\<close> that by simp
      then show "or_zero (studentPayments Map.empty ps' (id_s t)) =
          or_zero (studentPayments Map.empty qs' (id_s t))"
        by (simp add: studentPayments_paid)
    qed
    then show ?thesis by (simp add: calculatePaymentStatus_def)
  qed
  show ?thesis
    using own by (simp add: total rows StudentDetail_balance_def StudentDetail_paymentStatus_def)
qed

theorem C8_order_insensitive_witness:
  "mset [\<lparr>student_id = ''a'', amount = 60\<rparr>, \<lparr>student_id = ''b'', amount = 7\<rparr>,
         \<lparr>student_id = ''a'', amount = 50\<rparr>] =
     mset [\<lparr>student_id = ''a'', amount = 50\<rparr>, \<lparr>student_id = ''a'', amount = 60\<rparr>,
           \<lparr>student_id = ''b'', amount = 7\<rparr>]
   \<and> whole_amounts (map amount
        [\<lparr>student_id = ''a'', amount = 60\<rparr>, \<lparr>student_id = ''b'', amount = 7\<rparr>,
         \<lparr>student_id = ''a'', amount = 50\<rparr>])
   \<and> StudentDetail_totalPaid [\<lparr>student_id = ''a'', amount = 60\<rparr>, \<lparr>student_id = ''b'', amount = 7\<rparr>,
         \<lparr>student_id = ''a'', amount = 50\<rparr>] = 117
   \<and> StudentDetail_totalPaid [\<lparr>student_id = ''a'', amount = 50\<rparr>, \<lparr>student_id = ''a'', amount = 60\<rparr>,
         \<lparr>student_id = ''b'', amount = 7\<rparr>] = 117
   \<and> calculatePaymentStatus [\<lparr>id_s = ''a'', total_tuition = 100\<rparr>]
        [\<lparr>student_id = ''a'', amount = 60\<rparr>, \<lparr>student_id = ''b'', amount = 7\<rparr>,
         \<lparr>student_id = ''a'', amount = 50\<rparr>] =
       calculatePaymentStatus [\<lparr>id_s = ''a'', total_tuition = 100\<rparr>]
        [\<lparr>student_id = ''a'', amount = 50\<rparr>, \<lparr>student_id = ''a'', amount = 60\<rparr>,
         \<lparr>student_id = ''b'', amount = 7\<rparr>]"
proof -
  let ?ps = "[\<lparr>student_id = ''a'', amount = 60\<rparr>, \<lparr>student_id = ''b'', amount = 7\<rparr>,
         \<lparr>student_id = ''a'', amount = 50\<rparr>]"
  let ?qs = "[\<lparr>student_id = ''a'', amount = 50\<rparr>, \<lparr>student_id = ''a'', amount = 60\<rparr>,
           \<lparr>student_id = ''b'', amount = 7\<rparr>]"
  have h: "mset ?ps = mset ?qs"
    by (simp add: add_mset_commute)
  have w: "whole_amounts (map amount ?ps)"
    by (simp add: whole_amounts_def)
  note inst = C8_order_insensitive [OF h w, of "\<lparr>id_s = ''a'', total_tuition = 100\<rparr>"
        "[\<lparr>id_s = ''a'', total_tuition = 100\<rparr>]" "[]" "[]"]
  have t: "StudentDetail_totalPaid ?ps = 117"
    by (simp add: StudentDetail_totalPaid_double_sum double_sum_whole whole_amounts_def)
  from inst t have t': "StudentDetail_totalPaid ?qs = 117" by simp
  from inst have r: "calculatePaymentStatus [\<lparr>id_s = ''a'', total_tuition = 100\<rparr>] ?ps =
      calculatePaymentStatus [\<lparr>id_s = ''a'', total_tuition = 100\<rparr>] ?qs"
    by blast
  show ?thesis using h w t t' r by blast
qed

text \<open>
  Claim C9. The derivation produces exactly one of the three statuses, and the status is
  \<open>Paid\<close> if and only if the balance is \<open>\<le> 0\<close>; equivalently it is \<open>Partial Payment\<close> or
  \<open>Unpaid\<close> if and only if the balance is positive. This holds for every tuition, so in
  particular for every tuition \<open>\<ge> 0\<close>, on the detail page and for the rows of the payments
  list.
\<close>

theorem C9_paid_iff_balance:
  "(StudentDetail_paymentStatus s ps = Paid \<longleftrightarrow> StudentDetail_balance s ps \<le> 0)
   \<and> (StudentDetail_paymentStatus s ps = Partial_Payment
        \<or> StudentDetail_paymentStatus s ps = Unpaid \<longleftrightarrow> 0 < StudentDetail_balance s ps)
   \<and> (status (with_status (studentPayments Map.empty payments) s) = Paid \<longleftrightarrow>
        row_balance (with_status (studentPayments Map.empty payments) s) \<le> 0)
   \<and> (status (with_status (studentPayments Map.empty payments) s) = Partial_Payment
        \<or> status (with_status (studentPayments Map.empty payments) s) = Unpaid \<longleftrightarrow>
        0 < row_balance (with_status (studentPayments Map.empty payments) s))
   \<and> length (filter (\<lambda>st. StudentDetail_paymentStatus s ps = st)
        [Paid, Partial_Payment, Unpaid]) = 1
   \<and> length (filter (\<lambda>st. status (with_status (studentPayments Map.empty payments) s) = st)
        [Paid, Partial_Payment, Unpaid]) = 1"
proof -
  have d1: "StudentDetail_paymentStatus s ps = Paid \<longleftrightarrow> StudentDetail_balance s ps \<le> 0"
    by (simp add: StudentDetail_paymentStatus_def StudentDetail_balance_def fsub_le_zero_iff)
  have d2: "StudentDetail_paymentStatus s ps = Partial_Payment
        \<or> StudentDetail_paymentStatus s ps = Unpaid \<longleftrightarrow> 0 < StudentDetail_balance s ps"
    by (simp add: StudentDetail_paymentStatus_def StudentDetail_balance_def fsub_pos_iff not_le)
  have r1: "status (with_status m s) = Paid \<longleftrightarrow> row_balance (with_status m s) \<le> 0" for m
    by (simp add: with_status_def row_balance_def Let_def fsub_le_zero_iff)
  have r2: "status (with_status m s) = Partial_Payment \<or> status (with_status m s) = Unpaid
      \<longleftrightarrow> 0 < row_balance (with_status m s)" for m
    by (simp add: with_status_def row_balance_def Let_def fsub_pos_iff not_le)
  have one: "length (filter (\<lambda>st. x = st) [Paid, Partial_Payment, Unpaid]) = 1" for x
    by (cases x) simp_all
  show ?thesis using d1 d2 r1 r2 one by blast
qed

theorem C9_paid_iff_balance_witness:
  "StudentDetail_paymentStatus \<lparr>id_s = ''a'', total_tuition = 100\<rparr>
      [\<lparr>student_id = ''a'', amount = 60\<rparr>, \<lparr>student_id = ''a'', amount = 50\<rparr>] = Paid
   \<and> StudentDetail_balance \<lparr>id_s = ''a'', total_tuition = 100\<rparr>
      [\<lparr>student_id = ''a'', amount = 60\<rparr>, \<lparr>student_id = ''a'', amount = 50\<rparr>] \<le> 0"
proof -
  have "StudentDetail_totalPaid
      [\<lparr>student_id = ''a'', amount = 60\<rparr>, \<lparr>student_id = ''a'', amount = 50\<rparr>] = 110"
    by (simp add: StudentDetail_totalPaid_double_sum double_sum_whole whole_amounts_def)
  then have b: "StudentDetail_balance \<lparr>id_s = ''a'', total_tuition = 100\<rparr>
      [\<lparr>student_id = ''a'', amount = 60\<rparr>, \<lparr>student_id = ''a'', amount = 50\<rparr>] \<le> 0"
    by (simp add: StudentDetail_balance_def fsub_le_zero_iff Number_numeral)
  show ?thesis
    using b C9_paid_iff_balance [of "\<lparr>id_s = ''a'', total_tuition = 100\<rparr>"
        "[\<lparr>student_id = ''a'', amount = 60\<rparr>, \<lparr>student_id = ''a'', amount = 50\<rparr>]" "[]"]
    by blast
qed

text \<open>
  Claim C10. On the dashboard every payment record adds its amount to the global total,
  a running sum in double arithmetic over all records, also a record whose student
  identifier belongs to no student of the list. Such unmatched records do not change the
  pending count: it is the count obtained from the matched records alone. A student
  without payment records has paid exactly \<open>0\<close>, and is pending exactly when the tuition is
  positive.
\<close>

theorem C10_dashboard_unmatched_payments:
  "totalPayments (loadStats c ss (Some payments) gs) = double_sum (map amount payments)
   \<and> totalPayments (loadStats c ss (Some (payments @ [p])) gs) =
       fadd (totalPayments (loadStats c ss (Some payments) gs)) (Number (amount p))
   \<and> pendingPayments (loadStats c (Some students) (Some payments) gs) =
       pendingPayments (loadStats c (Some students)
         (Some (filter (\<lambda>p. student_id p \<in> id_s ` set students) payments)) gs)
   \<and> (eq_student_id (id_s s) payments = [] \<longrightarrow>
        or_zero (snd (forEach_payment (0, Map.empty) payments) (id_s s)) = 0
        \<and> (is_pending (snd (forEach_payment (0, Map.empty) payments)) s \<longleftrightarrow> 0 < total_tuition s))"
proof -
  let ?matched = "filter (\<lambda>p. student_id p \<in> id_s ` set students) payments"
  have total: "totalPayments (loadStats c ss (Some payments) gs) = double_sum (map amount payments)"
    for payments
    by (rule totalPayments_loadStats)
  have snoc: "totalPayments (loadStats c ss (Some (payments @ [p])) gs) =
       fadd (totalPayments (loadStats c ss (Some payments) gs)) (Number (amount p))"
    by (simp add: total double_sum_def)
  have same: "is_pending (studentPayments Map.empty payments) t =
      is_pending (studentPayments Map.empty ?matched) t" if "t \<in> set students" for t
    using that by (simp add: is_pending_paid eq_student_id_matched)
  have "filter (is_pending (studentPayments Map.empty payments)) students =
      filter (is_pending (studentPayments Map.empty ?matched)) students"
    by (rule filter_cong) (simp_all add: same)
  then have count: "pendingPayments (loadStats c (Some students) (Some payments) gs) =
      pendingPayments (loadStats c (Some students) (Some ?matched) gs)"
    by (simp add: pendingPayments_loadStats)
  have none: "or_zero (snd (forEach_payment (0, Map.empty) payments) (id_s s)) = 0
      \<and> (is_pending (snd (forEach_payment (0, Map.empty) payments)) s \<longleftrightarrow> 0 < total_tuition s)"
    if "eq_student_id (id_s s) payments = []"
    using that
    by (simp add: forEach_payment_eq studentPayments_paid is_pending_paid double_sum_Nil
        Number_pos_iff)
  show ?thesis using total snoc count none by blast
qed

theorem C10_dashboard_unmatched_payments_witness:
  "eq_student_id (id_s \<lparr>id_s = ''c'', total_tuition = 300\<rparr>)
      [\<lparr>student_id = ''a'', amount = 60\<rparr>, \<lparr>student_id = ''zz'', amount = 7\<rparr>] = []
   \<and> totalPayments (loadStats None (Some [\<lparr>id_s = ''a'', total_tuition = 60\<rparr>, \<lparr>id_s = ''c'', total_tuition = 300\<rparr>])
        (Some [\<lparr>student_id = ''a'', amount = 60\<rparr>, \<lparr>student_id = ''zz'', amount = 7\<rparr>]) None) = 67
   \<and> pendingPayments (loadStats None (Some [\<lparr>id_s = ''a'', total_tuition = 60\<rparr>, \<lparr>id_s = ''c'', total_tuition = 300\<rparr>])
        (Some [\<lparr>student_id = ''a'', amount = 60\<rparr>, \<lparr>student_id = ''zz'', amount = 7\<rparr>]) None) =
      pendingPayments (loadStats None (Some [\<lparr>id_s = ''a'', total_tuition = 60\<rparr>, \<lparr>id_s = ''c'', total_tuition = 300\<rparr>])
        (Some [\<lparr>student_id = ''a'', amount = 60\<rparr>]) None)
   \<and> is_pending (snd (forEach_payment (0, Map.empty)
        [\<lparr>student_id = ''a'', amount = 60\<rparr>, \<lparr>student_id = ''zz'', amount = 7\<rparr>]))
        \<lparr>id_s = ''c'', total_tuition = 300\<rparr>"
proof -
  let ?c = "\<lparr>id_s = ''c'', total_tuition = 300\<rparr>"
  let ?ss = "[\<lparr>id_s = ''a'', total_tuition = 60\<rparr>, ?c]"
  let ?ps = "[\<lparr>student_id = ''a'', amount = 60\<rparr>, \<lparr>student_id = ''zz'', amount = 7\<rparr>]"
  have h: "eq_student_id (id_s ?c) ?ps = []"
    by (simp add: eq_student_id_def)
  note inst = C10_dashboard_unmatched_payments [of None "Some ?ss" ?ps None
      "\<lparr>student_id = ''zz'', amount = 7\<rparr>" ?ss ?c]
  from inst have "totalPayments (loadStats None (Some ?ss) (Some ?ps) None) =
      double_sum (map amount ?ps)"
    by blast
  then have t: "totalPayments (loadStats None (Some ?ss) (Some ?ps) None) = 67"
    by (simp add: double_sum_whole whole_amounts_def)
  from inst have "pendingPayments (loadStats None (Some ?ss) (Some ?ps) None) =
      pendingPayments (loadStats None (Some ?ss)
        (Some (filter (\<lambda>p. student_id p \<in> id_s ` set ?ss) ?ps)) None)"
    by blast
  then have p: "pendingPayments (loadStats None (Some ?ss) (Some ?ps) None) =
      pendingPayments (loadStats None (Some ?ss) (Some [\<lparr>student_id = ''a'', amount = 60\<rparr>]) None)"
    by simp
  from inst h have "is_pending (snd (forEach_payment (0, Map.empty) ?ps)) ?c \<longleftrightarrow>
      0 < total_tuition ?c"
    by blast
  then have i: "is_pending (snd (forEach_payment (0, Map.empty) ?ps)) ?c" by simp
  show ?thesis using h t p i by blast
qed

end
